theory Spec2Isabelle
  imports Complex_Main "HOL-Library.Sublist" "HOL-Library.AList"
begin

section \<open>SplineComp: a shallow embedding of openmdao/components/spline\_comp.py\<close>

subsection \<open>Exceptions\<close>

text \<open>
  Every exception the component raises itself, and every exception the numpy calls it
  makes can raise, is a value. The string is the message (\<open>str(err)\<close>).
\<close>

datatype error =
    ValueError string
  | TypeError string
  | AttributeError string
  | IndexError string
  | KeyError string

definition bind_err :: "error + 'a \<Rightarrow> ('a \<Rightarrow> error + 'b) \<Rightarrow> error + 'b" where
  "bind_err r f = (case r of Inl e \<Rightarrow> Inl e | Inr x \<Rightarrow> f x)"

subsection \<open>The numpy functions the component calls, on one-dimensional integer arrays\<close>

text \<open>\<open>np.arange(n)\<close> for a Python int: \<open>0, ..., n-1\<close>, empty when \<open>n \<le> 0\<close>.\<close>

definition np_arange :: "int \<Rightarrow> int list" where
  "np_arange n = map int [0..<nat n]"

text \<open>\<open>np.repeat(a, n)\<close>: every element \<open>n\<close> times in turn; a negative count raises.\<close>

definition np_repeat :: "int list \<Rightarrow> int \<Rightarrow> error + int list" where
  "np_repeat a n =
     (if n < 0 then Inl (ValueError ''repeats may not contain negative values.'')
      else Inr (concat (map (replicate (nat n)) a)))"

text \<open>
  \<open>np.tile(a, n)\<close>: the whole array \<open>n\<close> times over. numpy tiles through \<open>repeat\<close>
  when the array is not empty, so a negative count raises there; an empty array is
  returned reshaped to length \<open>0 * n\<close>.
\<close>

definition np_tile :: "int list \<Rightarrow> int \<Rightarrow> error + int list" where
  "np_tile a n =
     (if a = [] then Inr []
      else if n < 0 then Inl (ValueError ''repeats may not contain negative values.'')
      else Inr (concat (replicate (nat n) a)))"

text \<open>
  \<open>a + b\<close> on one-dimensional arrays: elementwise on equal lengths, a length-one operand
  is broadcast, any other pair of lengths raises.
\<close>

definition np_add :: "int list \<Rightarrow> int list \<Rightarrow> error + int list" where
  "np_add a b =
     (if length a = length b then Inr (map2 (+) a b)
      else if length a = 1 then Inr (map ((+) (hd a)) b)
      else if length b = 1 then Inr (map (\<lambda>x. x + hd b) a)
      else Inl (ValueError ''operands could not be broadcast together''))"

subsection \<open>Options\<close>

definition ALL_METHODS :: "string list" where
  "ALL_METHODS = [''cubic'', ''slinear'', ''lagrange2'', ''lagrange3'', ''akima'',
                  ''bsplines'']"

text \<open>
  The options declared by \<open>_declare_options\<close>. \<open>vec_size\<close> and \<open>num_cp\<close> are Python ints,
  \<open>x_cp_val\<close> and \<open>num_cp\<close> may be \<open>None\<close>; \<open>x_interp_val\<close> and \<open>x_cp_val\<close> are
  one-dimensional sequences. \<open>interp_options\<close> is passed to the engine untouched.
\<close>

record options =
  vec_size :: int
  interp_method :: string
  x_interp_val :: "real list"
  x_cp_val :: "real list option"
  num_cp :: "int option"
  interp_options :: "(string \<times> string) list"

text \<open>The host's declaration \<open>values=ALL_METHODS\<close> for the option \<open>method\<close>
  (the field \<open>interp_method\<close>, after the local variable of \<open>setup\<close>).\<close>

definition valid_method :: "string \<Rightarrow> bool" where
  "valid_method m = (m \<in> set ALL_METHODS)"

text \<open>Python's \<open>str.startswith\<close>.\<close>

definition startswith :: "string \<Rightarrow> string \<Rightarrow> bool" where
  "startswith s p = (take (length p) s = p)"

subsection \<open>setup, lines 88--112: the control-point grid\<close>

definition msg_bsplines :: "string \<Rightarrow> string" where
  "msg_bsplines msginfo =
     msginfo @ '': 'x_cp_val' is not a valid option when using method 'bsplines'. ''
             @ ''Set 'num_cp' instead.''"

definition msg_both :: "string \<Rightarrow> string" where
  "msg_both msginfo =
     msginfo @ '': It is not valid to set both options 'x_cp_val' and 'num_cp'.''"

definition msg_neither :: "string \<Rightarrow> string" where
  "msg_neither msginfo =
     msginfo @ '': Either option 'x_cp_val' or 'num_cp' must be set.''"

text \<open>
  The result is the pair \<open>(grid, n_cp)\<close> of the local variables after line 112.
  \<open>np.asarray\<close> keeps the positions; \<open>np.arange(n_cp)\<close> is turned into positions.
\<close>

definition resolve_grid :: "string \<Rightarrow> options \<Rightarrow> error + (real list \<times> int)" where
  "resolve_grid msginfo opts =
     (case x_cp_val opts of
        Some xs \<Rightarrow>
          if interp_method opts = ''bsplines'' then Inl (ValueError (msg_bsplines msginfo))
          else if num_cp opts \<noteq> None then Inl (ValueError (msg_both msginfo))
          else Inr (xs, int (length xs))
      | None \<Rightarrow>
          (case num_cp opts of
             Some n \<Rightarrow> Inr (map real_of_int (np_arange n), n)
           | None \<Rightarrow> Inl (ValueError (msg_neither msginfo))))"

subsection \<open>setup, lines 136--139: the sparsity pattern\<close>

definition sparsity :: "int \<Rightarrow> nat \<Rightarrow> int \<Rightarrow> error + (int list \<times> int list)" where
  "sparsity vs n_interp n_cp =
     bind_err (np_repeat (np_arange (int n_interp)) n_cp) (\<lambda>row.
     bind_err (np_tile (np_arange n_cp) (int n_interp)) (\<lambda>col.
     bind_err (np_tile row vs) (\<lambda>row_t.
     bind_err (np_repeat (map ((*) (int n_interp)) (np_arange vs)) (int n_interp * n_cp)) (\<lambda>row_off.
     bind_err (np_add row_t row_off) (\<lambda>rows.
     bind_err (np_tile col vs) (\<lambda>col_t.
     bind_err (np_repeat (map ((*) n_cp) (np_arange vs)) (int n_interp * n_cp)) (\<lambda>col_off.
     bind_err (np_add col_t col_off) (\<lambda>cols.
     Inr (rows, cols)))))))))"

subsection \<open>numpy arrays of floats\<close>

text \<open>
  An \<open>ndarray\<close> is its shape and its elements in row-major (C) order, as numpy stores a
  freshly made array. The elements are reals: the claims are about which element goes
  where, not about floating-point arithmetic.
\<close>

datatype ndarray = NDArray (shape: "nat list") (data: "real list")

text \<open>\<open>a[i0, i1, ...]\<close> with one index per axis: the element at the row-major offset.\<close>

fun offset :: "nat list \<Rightarrow> nat list \<Rightarrow> nat" where
  "offset (s # ss) (i # is) = i * prod_list ss + offset ss is"
| "offset _ _ = 0"

definition item :: "ndarray \<Rightarrow> nat list \<Rightarrow> real" where
  "item a idx = data a ! offset (shape a) idx"

definition negative_dims :: "int list \<Rightarrow> bool" where
  "negative_dims dims = list_ex (\<lambda>d. d < 0) dims"

definition np_full :: "real \<Rightarrow> int list \<Rightarrow> error + ndarray" where
  "np_full v dims =
     (if negative_dims dims then Inl (ValueError ''negative dimensions are not allowed'')
      else Inr (NDArray (map nat dims) (replicate (prod_list (map nat dims)) v)))"

definition np_ones :: "int list \<Rightarrow> error + ndarray" where
  "np_ones dims = np_full 1 dims"

definition np_zeros :: "int list \<Rightarrow> error + ndarray" where
  "np_zeros dims = np_full 0 dims"

text \<open>
  \<open>a.reshape((r, c))\<close>: the elements are kept in order. A negative entry stands for the
  one dimension numpy infers from the size (documented for \<open>-1\<close>); otherwise the sizes
  must agree. numpy's message also prints the size and the shape.
\<close>

definition reshape_error :: error where
  "reshape_error = ValueError ''cannot reshape array into the requested shape''"

definition np_reshape2 :: "ndarray \<Rightarrow> int \<Rightarrow> int \<Rightarrow> error + ndarray" where
  "np_reshape2 a r c =
     (let n = prod_list (shape a) in
      if r < 0 \<and> c < 0 then Inl (ValueError ''can only specify one unknown dimension'')
      else if r < 0 then
        (if c = 0 \<or> n mod nat c \<noteq> 0 then Inl reshape_error
         else Inr (NDArray [n div nat c, nat c] (data a)))
      else if c < 0 then
        (if r = 0 \<or> n mod nat r \<noteq> 0 then Inl reshape_error
         else Inr (NDArray [nat r, n div nat r] (data a)))
      else if nat r * nat c = n then Inr (NDArray [nat r, nat c] (data a))
      else Inl reshape_error)"

text \<open>\<open>a[0, :]\<close>: the first row of an array of two or more axes.\<close>

definition first_row :: "ndarray \<Rightarrow> error + ndarray" where
  "first_row a =
     (case shape a of
        d0 # d1 # ds \<Rightarrow>
          if d0 = 0 then Inl (IndexError ''index 0 is out of bounds for axis 0 with size 0'')
          else Inr (NDArray (d1 # ds) (take (prod_list (d1 # ds)) (data a)))
      | _ \<Rightarrow> Inl (IndexError ''too many indices for array''))"

text \<open>
  Broadcasting. The source shape is padded on the left with ones to the rank of the
  target; an axis is compatible when the sizes agree or the source size is one, and an
  axis of size one is read at index zero whatever the target index.
\<close>

definition pad_shape :: "nat \<Rightarrow> nat list \<Rightarrow> nat list" where
  "pad_shape n s = replicate (n - length s) 1 @ s"

fun broadcastable :: "nat list \<Rightarrow> nat list \<Rightarrow> bool" where
  "broadcastable [] [] = True"
| "broadcastable (s # ss) (t # ts) = ((s = t \<or> s = 1) \<and> broadcastable ss ts)"
| "broadcastable _ _ = False"

fun src_offset :: "nat list \<Rightarrow> nat list \<Rightarrow> nat \<Rightarrow> nat" where
  "src_offset (s # ss) (t # ts) i =
     (if s = 1 then 0 else (i div prod_list ts) * prod_list ss)
     + src_offset ss ts (i mod prod_list ts)"
| "src_offset _ _ i = 0"

definition broadcast_data :: "nat list \<Rightarrow> real list \<Rightarrow> nat list \<Rightarrow> real list" where
  "broadcast_data s d t = map (\<lambda>i. d ! src_offset s t i) [0..<prod_list t]"

text \<open>\<open>np.broadcast_to(a, dims)\<close>; numpy's message also prints the two shapes.\<close>

definition np_broadcast_to :: "ndarray \<Rightarrow> int list \<Rightarrow> error + ndarray" where
  "np_broadcast_to a dims =
     (if negative_dims dims
      then Inl (ValueError ''all elements of broadcast shape must be non-negative'')
      else let t = map nat dims; s = pad_shape (length t) (shape a) in
        if length (shape a) \<le> length t \<and> broadcastable s t
        then Inr (NDArray t (broadcast_data s (data a) t))
        else Inl (ValueError ''operands could not be broadcast together with remapped shapes''))"

text \<open>
  \<open>dst[...] = src\<close> for a destination block of shape \<open>t\<close>: numpy drops leading axes of
  size one from a source of higher rank, then broadcasts; the result is the new content
  of the block. numpy's message also prints the two shapes.
\<close>

fun strip_ones :: "nat \<Rightarrow> nat list \<Rightarrow> nat list" where
  "strip_ones n [] = []"
| "strip_ones n (s # ss) = (if n < length (s # ss) \<and> s = 1 then strip_ones n ss else s # ss)"

definition np_assign :: "nat list \<Rightarrow> ndarray \<Rightarrow> error + real list" where
  "np_assign t src =
     (let s0 = strip_ones (length t) (shape src); s = pad_shape (length t) s0 in
      if length s0 \<le> length t \<and> broadcastable s t
      then Inr (broadcast_data s (data src) t)
      else Inl (ValueError ''could not broadcast input array''))"

text \<open>\<open>a.flatten()\<close>: the elements in row-major order, as a one-dimensional array.\<close>

definition flatten :: "ndarray \<Rightarrow> real list" where
  "flatten a = data a"

text \<open>\<open>np.reshape(flat, shape)\<close> of a one-dimensional array of the right size.\<close>

definition unflatten :: "real list \<Rightarrow> nat list \<Rightarrow> error + ndarray" where
  "unflatten flat s =
     (if length flat = prod_list s then Inr (NDArray s flat) else Inl reshape_error)"

subsection \<open>The interpolation engine (InterpND), as far as the component touches it\<close>

text \<open>
  What the engine caches in \<open>_d_dvalues\<close>: a numpy array, or a scipy sparse matrix, which
  is given here by the array its \<open>toarray()\<close> returns.
\<close>

datatype deriv = Dense ndarray | Sparse ndarray

fun deriv_array :: "deriv \<Rightarrow> ndarray" where
  "deriv_array (Dense a) = a"
| "deriv_array (Sparse a) = a"

text \<open>
  The attributes of an engine that the component reads or writes: \<open>_compute_d_dvalues\<close>,
  \<open>_compute_d_dx\<close>, \<open>x_interp\<close> and \<open>_d_dvalues\<close> (\<open>None\<close> when the engine has no batched
  derivative). The record is extensible: what else an engine holds is its own business.
\<close>

record interp =
  compute_d_dvalues :: bool
  compute_d_dx :: bool
  x_interp :: "real list"
  d_dvalues :: "deriv option"

text \<open>
  The engine's code is not part of the component, so its three entry points are
  parameters of the model:
  \<^item> the constructor \<open>InterpND((grid,), cp_val, interp_method=, x_interp=, bounds_error=,
    **opts)\<close>, which may raise;
  \<^item> \<open>evaluate_spline(values)\<close>, which returns the interpolated array or raises, and
    leaves the engine changed (the derivative cache);
  \<^item> \<open>training_gradients(pt)\<close>, which returns an array or raises.
\<close>

type_synonym engine_new =
  "real list \<Rightarrow> ndarray \<Rightarrow> string \<Rightarrow> real list \<Rightarrow> bool \<Rightarrow> (string \<times> string) list
     \<Rightarrow> error + interp"

type_synonym engine_eval = "interp \<Rightarrow> ndarray \<Rightarrow> (error + ndarray) \<times> interp"

type_synonym engine_grad = "interp \<Rightarrow> real list \<Rightarrow> error + ndarray"

subsection \<open>The component\<close>

text \<open>
  The default control values given to \<open>add_spline\<close>: the docstring allows a list or an
  array.
\<close>

datatype y_cp = PyList "real list" | PyArray ndarray

type_synonym spline = "string \<times> string \<times> y_cp option \<times> string option"

text \<open>
  The attributes of a \<open>SplineComp\<close> (\<open>self_n_cp\<close> is \<open>_n_cp\<close>), and what it has declared to
  the host framework so far: the calls of \<open>add_output\<close>, \<open>add_input\<close>, \<open>declare_partials\<close>
  and \<open>set_check_partial_options\<close>, in order. The two dicts keep insertion order.
\<close>

record comp =
  interp_to_cp :: "(string \<times> string) list"
  interps :: "(string \<times> interp) list"
  spline_cache :: "spline list"
  self_n_cp :: "int option"
  added_outputs :: "(string \<times> ndarray \<times> string option) list"
  added_inputs :: "(string \<times> ndarray) list"
  declared_partials :: "(string \<times> string \<times> int list \<times> int list) list"
  check_partial_options :: "(string \<times> string) list"

definition init :: comp where
  "init = \<lparr> interp_to_cp = [], interps = [], spline_cache = [], self_n_cp = None,
            added_outputs = [], added_inputs = [], declared_partials = [],
            check_partial_options = [] \<rparr>"

definition add_spline :: "string \<Rightarrow> string \<Rightarrow> y_cp option \<Rightarrow> string option \<Rightarrow> comp \<Rightarrow> comp" where
  "add_spline y_cp_name y_interp_name y_cp_val y_units c =
     c\<lparr>spline_cache := spline_cache c @ [(y_cp_name, y_interp_name, y_cp_val, y_units)]\<rparr>"

subsection \<open>setup, lines 126--130: the default control values\<close>

definition default_cp_val :: "int \<Rightarrow> int \<Rightarrow> y_cp option \<Rightarrow> error + ndarray" where
  "default_cp_val vs n_cp y_cp_val =
     (case y_cp_val of
        None \<Rightarrow> np_ones [vs, n_cp]
      | Some (PyList l) \<Rightarrow> Inl (AttributeError ''list object has no attribute shape'')
      | Some (PyArray a) \<Rightarrow>
          if length (shape a) < 2 then np_reshape2 a vs n_cp else Inr a)"

subsection \<open>setup, lines 122--149: one pass of the loop over the registered splines\<close>

text \<open>
  The calls that can raise come in the order of the source: \<open>np.ones\<close> for the output,
  the default control values, the index arrays, \<open>y_cp_val[0, :]\<close> and the engine's
  constructor. The host's \<open>add_output\<close>, \<open>add_input\<close> and \<open>declare_partials\<close> are recorded as
  calls. When a call raises, the exception is the result of setup.
\<close>

definition setup_spline ::
  "engine_new \<Rightarrow> options \<Rightarrow> real list \<Rightarrow> int \<Rightarrow> spline \<Rightarrow> comp \<Rightarrow> error + comp" where
  "setup_spline InterpND opts grid n_cp sp c =
     (case sp of (y_cp_name, y_interp_name, y_cp_val, y_units) \<Rightarrow>
      let vs = vec_size opts; n_interp = length (x_interp_val opts) in
      bind_err (np_ones [vs, int n_interp]) (\<lambda>out_val.
      bind_err (default_cp_val vs n_cp y_cp_val) (\<lambda>val.
      bind_err (sparsity vs n_interp n_cp) (\<lambda>(rows, cols).
      bind_err (first_row val) (\<lambda>cp_val.
      bind_err (InterpND grid cp_val (interp_method opts) (x_interp_val opts) False
                  (interp_options opts)) (\<lambda>engine.
      Inr (c\<lparr> added_outputs := added_outputs c @ [(y_interp_name, out_val, y_units)],
              added_inputs := added_inputs c @ [(y_cp_name, val)],
              interp_to_cp := AList.update y_interp_name y_cp_name (interp_to_cp c),
              declared_partials :=
                declared_partials c @ [(y_interp_name, y_cp_name, rows, cols)],
              interps := AList.update y_interp_name engine (interps c) \<rparr>)))))))"

fun setup_loop ::
  "engine_new \<Rightarrow> options \<Rightarrow> real list \<Rightarrow> int \<Rightarrow> spline list \<Rightarrow> comp \<Rightarrow> error + comp" where
  "setup_loop InterpND opts grid n_cp [] c = Inr c"
| "setup_loop InterpND opts grid n_cp (sp # sps) c =
     bind_err (setup_spline InterpND opts grid n_cp sp c)
       (setup_loop InterpND opts grid n_cp sps)"

subsection \<open>setup as a whole\<close>

definition setup_comp :: "engine_new \<Rightarrow> string \<Rightarrow> options \<Rightarrow> comp \<Rightarrow> error + comp" where
  "setup_comp InterpND msginfo opts c =
     bind_err (resolve_grid msginfo opts) (\<lambda>(grid, n_cp).
     bind_err (setup_loop InterpND opts grid n_cp (spline_cache c)
                 (c\<lparr>self_n_cp := Some n_cp\<rparr>)) (\<lambda>c'.
     if startswith (interp_method opts) ''scipy''
     then Inr (c'\<lparr>check_partial_options := check_partial_options c' @ [(''*'', ''fd'')]\<rparr>)
     else Inr c'))"

subsection \<open>compute\<close>

text \<open>
  The message of the error raised at line 177: the format string with the component's
  \<open>msginfo\<close>, the output's name between single quotes, a colon, a newline and the
  engine's message.
\<close>

definition msg_interp :: "string \<Rightarrow> string \<Rightarrow> string \<Rightarrow> string" where
  "msg_interp msginfo out_name err =
     msginfo @ '': Error interpolating output '' @ [CHR 0x27] @ out_name @ [CHR 0x27]
             @ '':'' @ [CHR 0x0A] @ err"

text \<open>
  What a call of \<open>compute\<close> leaves behind: the engines (each is mutated in place), the
  output vector, and the names for which \<open>evaluate_spline\<close> was called, in order.
\<close>

record run =
  engines :: "(string \<times> interp) list"
  outputs :: "string \<rightharpoonup> ndarray"
  evaluated :: "string list"

text \<open>
  The loop over \<open>self.interps\<close>. The result is the state when the call ends and the
  exception it ends with, if any. Only a \<open>ValueError\<close> of the engine is caught and raised
  again with the new message; any other exception passes through.
\<close>

fun compute_loop ::
  "engine_eval \<Rightarrow> string \<Rightarrow> options \<Rightarrow> (string \<times> string) list \<Rightarrow> (string \<rightharpoonup> ndarray)
     \<Rightarrow> (string \<times> interp) list \<Rightarrow> run \<Rightarrow> run \<times> error option" where
  "compute_loop evaluate_spline msginfo opts i2c inputs [] r = (r, None)"
| "compute_loop evaluate_spline msginfo opts i2c inputs ((out_name, engine) # rest) r =
     (case map_of i2c out_name of
        None \<Rightarrow> (r, Some (KeyError out_name))
      | Some cp_name \<Rightarrow>
     (case inputs cp_name of
        None \<Rightarrow> (r, Some (KeyError cp_name))
      | Some values \<Rightarrow>
     (case evaluate_spline
             (engine\<lparr>compute_d_dvalues := True, compute_d_dx := False,
                     x_interp := x_interp_val opts\<rparr>) values of
        (res, engine') \<Rightarrow>
          let r' = r\<lparr>engines := AList.update out_name engine' (engines r),
                     evaluated := evaluated r @ [out_name]\<rparr>
          in (case res of
                Inr y \<Rightarrow>
                  compute_loop evaluate_spline msginfo opts i2c inputs rest
                    (r'\<lparr>outputs := (outputs r')(out_name \<mapsto> y)\<rparr>)
              | Inl (ValueError err) \<Rightarrow>
                  (r', Some (ValueError (msg_interp msginfo out_name err)))
              | Inl e \<Rightarrow> (r', Some e)))))"

definition compute ::
  "engine_eval \<Rightarrow> string \<Rightarrow> options \<Rightarrow> comp \<Rightarrow> (string \<rightharpoonup> ndarray) \<Rightarrow> (string \<rightharpoonup> ndarray)
     \<Rightarrow> run \<times> error option" where
  "compute evaluate_spline msginfo opts c inputs outs =
     compute_loop evaluate_spline msginfo opts (interp_to_cp c) inputs (interps c)
       \<lparr>engines = interps c, outputs = outs, evaluated = []\<rparr>"

subsection \<open>compute\_partials\<close>

text \<open>
  Lines 216--218: one query of the engine per interpolated point; the gradient is
  assigned to row \<open>k\<close> of the \<open>(n_interp, n_cp)\<close> array, whose elements are \<open>dy\<close>.
\<close>

fun grad_rows ::
  "engine_grad \<Rightarrow> interp \<Rightarrow> real list \<Rightarrow> nat \<Rightarrow> nat list \<Rightarrow> real list \<Rightarrow> error + real list" where
  "grad_rows training_gradients engine xs n_cp [] dy = Inr dy"
| "grad_rows training_gradients engine xs n_cp (k # ks) dy =
     bind_err (training_gradients engine (take 1 (drop k xs))) (\<lambda>val.
     bind_err (np_assign [n_cp] val) (\<lambda>row.
     grad_rows training_gradients engine xs n_cp ks
       (take (k * n_cp) dy @ row @ drop (Suc k * n_cp) dy)))"

text \<open>
  Lines 201--219: the array \<open>dy_ddata\<close> of one spline, before it is flattened. A sparse
  matrix that reaches the assignment of line 207 (its leading dimension is \<open>vec_size\<close>)
  cannot be converted to floats by numpy, which raises; a numpy array that reaches
  line 210 has no \<open>toarray\<close>. The shape of a 0-dimensional array has no first entry.
\<close>

definition assemble :: "engine_grad \<Rightarrow> options \<Rightarrow> int \<Rightarrow> interp \<Rightarrow> error + ndarray" where
  "assemble training_gradients opts n_cp engine =
     (let vs = vec_size opts; n_interp = length (x_interp_val opts) in
      case d_dvalues engine of
        Some d \<Rightarrow>
          bind_err (np_zeros [vs, int n_interp, n_cp]) (\<lambda>dy_ddata.
          case shape (deriv_array d) of
            [] \<Rightarrow> Inl (IndexError ''tuple index out of range'')
          | s0 # _ \<Rightarrow>
              if int s0 = vs then
                (case d of
                   Dense a \<Rightarrow>
                     bind_err (np_assign (shape dy_ddata) a) (\<lambda>v.
                     Inr (NDArray (shape dy_ddata) v))
                 | Sparse m \<Rightarrow>
                     Inl (TypeError ''float() argument must be a string or a number''))
              else
                (case d of
                   Dense a \<Rightarrow>
                     Inl (AttributeError ''numpy.ndarray object has no attribute toarray'')
                 | Sparse m \<Rightarrow>
                     bind_err (np_broadcast_to m [vs, int n_interp, n_cp]) (\<lambda>b.
                     bind_err (np_assign (shape dy_ddata) b) (\<lambda>v.
                     Inr (NDArray (shape dy_ddata) v)))))
      | None \<Rightarrow>
          bind_err (np_zeros [int n_interp, n_cp]) (\<lambda>dy_ddata.
          bind_err (grad_rows training_gradients engine (x_interp_val opts) (nat n_cp)
                      [0..<n_interp] (data dy_ddata)) (\<lambda>v.
          np_broadcast_to (NDArray (shape dy_ddata) v) [vs, int n_interp, n_cp])))"

text \<open>
  The loop over \<open>self.interps\<close>; \<open>partials\<close> is the host's Jacobian, keyed by the pair of
  names. \<open>_n_cp\<close> is still \<open>None\<close> when \<open>setup\<close> has not run.
\<close>

fun compute_partials_loop ::
  "engine_grad \<Rightarrow> options \<Rightarrow> int option \<Rightarrow> (string \<times> string) list \<Rightarrow> (string \<times> interp) list
     \<Rightarrow> (string \<times> string \<rightharpoonup> real list) \<Rightarrow> error + (string \<times> string \<rightharpoonup> real list)" where
  "compute_partials_loop training_gradients opts n_cp i2c [] partials = Inr partials"
| "compute_partials_loop training_gradients opts n_cp i2c ((out_name, engine) # rest) partials =
     (case map_of i2c out_name of
        None \<Rightarrow> Inl (KeyError out_name)
      | Some cp_name \<Rightarrow>
     (case n_cp of
        None \<Rightarrow> Inl (TypeError ''NoneType object cannot be interpreted as an integer'')
      | Some n \<Rightarrow>
          bind_err (assemble training_gradients opts n engine) (\<lambda>dy_ddata.
          compute_partials_loop training_gradients opts n_cp i2c rest
            (partials((out_name, cp_name) \<mapsto> flatten dy_ddata)))))"

definition compute_partials ::
  "engine_grad \<Rightarrow> options \<Rightarrow> comp \<Rightarrow> (string \<times> string \<rightharpoonup> real list)
     \<Rightarrow> error + (string \<times> string \<rightharpoonup> real list)" where
  "compute_partials training_gradients opts c partials =
     compute_partials_loop training_gradients opts (self_n_cp c) (interp_to_cp c)
       (interps c) partials"

subsection \<open>Closed forms used in the proofs\<close>

text \<open>
  The two base index arrays of lines 136 and 137 and the per-batch offsets of lines 138
  and 139, as lists.
\<close>

definition base_row :: "nat \<Rightarrow> nat \<Rightarrow> int list" where
  "base_row N C = concat (map (replicate C) (np_arange (int N)))"

definition base_col :: "nat \<Rightarrow> nat \<Rightarrow> int list" where
  "base_col N C = concat (replicate N (np_arange (int C)))"

definition row_offsets :: "nat \<Rightarrow> nat \<Rightarrow> int \<Rightarrow> int \<Rightarrow> int list" where
  "row_offsets N C m vs = concat (map (replicate (N * C)) (map ((*) m) (np_arange vs)))"

subsection \<open>The grid configurations the specification allows\<close>

text \<open>
  Following the specification's words: exactly one of \<open>x_cp_val\<close> and \<open>num_cp\<close> is set,
  and the method is not \<open>bsplines\<close> when \<open>x_cp_val\<close> is set.
\<close>

definition grid_config_ok :: "options \<Rightarrow> bool" where
  "grid_config_ok opts =
     (((x_cp_val opts \<noteq> None) \<noteq> (num_cp opts \<noteq> None))
      \<and> (x_cp_val opts \<noteq> None \<longrightarrow> interp_method opts \<noteq> ''bsplines''))"

subsection \<open>A small component: one spline, two interpolated points, three control points\<close>

definition example_engine :: interp where
  "example_engine = \<lparr>compute_d_dvalues = False, compute_d_dx = False, x_interp = [],
                      d_dvalues = None\<rparr>"

definition example_new :: engine_new where
  "example_new grid cp_val m xs bounds_error opts = Inr (example_engine\<lparr>x_interp := xs\<rparr>)"

definition example_opts :: options where
  "example_opts = \<lparr>vec_size = 2, interp_method = ''akima'', x_interp_val = [1/2, 3/2],
                    x_cp_val = None, num_cp = Some 3, interp_options = []\<rparr>"

definition example_comp :: comp where
  "example_comp = add_spline ''ycp'' ''y'' None None init"

text \<open>The same options with explicit positions added (both options set).\<close>

definition bad_opts :: options where
  "bad_opts = example_opts\<lparr>x_cp_val := Some [0, 1, 2]\<rparr>"

text \<open>The same options with explicit positions only.\<close>

definition explicit_opts :: options where
  "explicit_opts = example_opts\<lparr>x_cp_val := Some [1, 2, 4, 8], num_cp := None\<rparr>"

text \<open>A component whose only spline has a one-dimensional default of shape \<open>(n_cp,)\<close>.\<close>

definition flat_cp_comp :: comp where
  "flat_cp_comp = add_spline ''ycp'' ''y'' (Some (PyArray (NDArray [3] [1, 2, 4]))) None init"

text \<open>
  An engine whose evaluation always fails with a value-domain error, a control-point
  vector, and a component that holds the engine and the name mapping of one spline
  with three control points.
\<close>

definition failing_eval :: engine_eval where
  "failing_eval engine values =
     (Inl (ValueError ''One of the requested xi is out of bounds''),
      engine\<lparr>d_dvalues := None\<rparr>)"

definition example_inputs :: "string \<rightharpoonup> ndarray" where
  "example_inputs = [''ycp'' \<mapsto> NDArray [2, 3] [1, 2, 4, 5, 6, 7]]"

definition ready_comp :: comp where
  "ready_comp = init\<lparr>interp_to_cp := [(''y'', ''ycp'')], interps := [(''y'', example_engine)],
                      self_n_cp := Some 3\<rparr>"

text \<open>
  Engines for the examples: gradients queried point by point; a sparse cache of shape
  \<open>(3, 3)\<close> with the options for three interpolated points; a dense cache of shape
  \<open>(2, 1, 3)\<close> where \<open>(2, 2, 3)\<close> is expected; a dense cache of shape \<open>(2, 5, 3)\<close>.
\<close>

definition example_grad :: engine_grad where
  "example_grad engine pt = Inr (NDArray [3] [1 - hd pt, hd pt, 0])"

definition sparse_engine :: interp where
  "sparse_engine = example_engine\<lparr>d_dvalues := Some (Sparse (NDArray [3, 3] [1, 0, 0, 1, 1, 0, 0, 1, 1]))\<rparr>"

definition three_opts :: options where
  "three_opts = example_opts\<lparr>x_interp_val := [0, 1, 2]\<rparr>"

definition coerced_engine :: interp where
  "coerced_engine = example_engine\<lparr>d_dvalues := Some (Dense (NDArray [2, 1, 3] [1, 2, 3, 4, 5, 6]))\<rparr>"

definition coerced_comp :: comp where
  "coerced_comp = ready_comp\<lparr>interps := [(''y'', coerced_engine)]\<rparr>"

definition misshaped_engine :: interp where
  "misshaped_engine = example_engine\<lparr>d_dvalues := Some (Dense (NDArray [2, 5, 3] (replicate 30 0)))\<rparr>"

definition misshaped_comp :: comp where
  "misshaped_comp = ready_comp\<lparr>interps := [(''y'', misshaped_engine)]\<rparr>"

text \<open>
  More engines for the examples: sparse caches of shape \<open>(1, 3)\<close> and \<open>(5, 3)\<close> where
  \<open>(2, 3)\<close> is expected, and gradients of length one and two where three control points
  are expected.
\<close>

definition flat_sparse_engine :: interp where
  "flat_sparse_engine = example_engine\<lparr>d_dvalues := Some (Sparse (NDArray [1, 3] [1, 2, 3]))\<rparr>"

definition tall_sparse_engine :: interp where
  "tall_sparse_engine = example_engine\<lparr>d_dvalues := Some (Sparse (NDArray [5, 3] (replicate 15 0)))\<rparr>"

definition const_grad :: engine_grad where
  "const_grad engine pt = Inr (NDArray [1] [hd pt])"

definition short_grad :: engine_grad where
  "short_grad engine pt = Inr (NDArray [2] [hd pt, 0])"

section \<open>Auxiliary facts\<close>

lemma length_concat_replicate: "length (concat (replicate n xs)) = n * length xs"
  by (induction n) auto

lemma length_concat_map_replicate:
  "length (concat (map (replicate m) xs)) = length xs * m"
  by (induction xs) auto

lemma nth_concat_replicate:
  "i < n * length xs \<Longrightarrow> concat (replicate n xs) ! i = xs ! (i mod length xs)"
proof (induction n arbitrary: i)
  case 0
  then show ?case by simp
next
  case (Suc n)
  show ?case
  proof (cases "i < length xs")
    case True
    then show ?thesis by (simp add: nth_append)
  next
    case False
    then have "i - length xs < n * length xs" using Suc.prems by simp
    from Suc.IH[OF this] False show ?thesis
      by (simp add: nth_append le_mod_geq)
  qed
qed

lemma nth_concat_map_replicate:
  "i < length xs * m \<Longrightarrow> concat (map (replicate m) xs) ! i = xs ! (i div m)"
proof (induction xs arbitrary: i)
  case Nil
  then show ?case by simp
next
  case (Cons x xs)
  have m: "0 < m" using Cons.prems by (cases m) auto
  show ?case
  proof (cases "i < m")
    case True
    then show ?thesis by (simp add: nth_append)
  next
    case False
    then have "i - m < length xs * m" using Cons.prems by simp
    from Cons.IH[OF this] False m show ?thesis
      by (simp add: nth_append le_div_geq)
  qed
qed

lemma np_tile_nonneg: "0 \<le> n \<Longrightarrow> np_tile a n = Inr (concat (replicate (nat n) a))"
  by (simp add: np_tile_def)

lemma np_repeat_nonneg: "0 \<le> n \<Longrightarrow> np_repeat a n = Inr (concat (map (replicate (nat n)) a))"
  by (simp add: np_repeat_def)

lemma np_add_same: "length a = length b \<Longrightarrow> np_add a b = Inr (map2 (+) a b)"
  by (simp add: np_add_def)

lemma length_base_row: "length (base_row N C) = N * C"
  unfolding base_row_def length_concat_map_replicate by (simp add: np_arange_def)

lemma length_base_col: "length (base_col N C) = N * C"
  unfolding base_col_def length_concat_replicate by (simp add: np_arange_def)

lemma length_row_offsets: "length (row_offsets N C m vs) = nat vs * (N * C)"
  unfolding row_offsets_def length_concat_map_replicate by (simp add: np_arange_def)

lemma sparsity_nonneg:
  assumes "0 \<le> vs" "0 \<le> n_cp"
  shows "sparsity vs N n_cp =
     Inr (map2 (+) (concat (replicate (nat vs) (base_row N (nat n_cp))))
                   (row_offsets N (nat n_cp) (int N) vs),
          map2 (+) (concat (replicate (nat vs) (base_col N (nat n_cp))))
                   (row_offsets N (nat n_cp) n_cp vs))"
proof -
  have nn: "0 \<le> int N * n_cp" using assms by simp
  have e: "nat (int N * n_cp) = N * nat n_cp" using assms by (simp add: nat_mult_distrib)
  have r1: "np_repeat (np_arange (int N)) n_cp = Inr (base_row N (nat n_cp))"
    using assms by (simp only: np_repeat_nonneg base_row_def)
  have r2: "np_tile (np_arange n_cp) (int N) = Inr (base_col N (nat n_cp))"
    using assms by (simp add: np_tile_nonneg base_col_def)
  have r3: "np_tile xs vs = Inr (concat (replicate (nat vs) xs))" for xs
    using assms by (simp only: np_tile_nonneg)
  have r4: "np_repeat (map ((*) m) (np_arange vs)) (int N * n_cp)
              = Inr (row_offsets N (nat n_cp) m vs)" for m
    using nn by (simp only: np_repeat_nonneg row_offsets_def e)
  have r5: "np_add (concat (replicate (nat vs) (base_row N (nat n_cp))))
                   (row_offsets N (nat n_cp) m vs)
          = Inr (map2 (+) (concat (replicate (nat vs) (base_row N (nat n_cp))))
                   (row_offsets N (nat n_cp) m vs))" for m
    by (rule np_add_same) (simp only: length_concat_replicate length_base_row length_row_offsets)
  have r6: "np_add (concat (replicate (nat vs) (base_col N (nat n_cp))))
                   (row_offsets N (nat n_cp) m vs)
          = Inr (map2 (+) (concat (replicate (nat vs) (base_col N (nat n_cp))))
                   (row_offsets N (nat n_cp) m vs))" for m
    by (rule np_add_same) (simp only: length_concat_replicate length_base_col length_row_offsets)
  show ?thesis
    by (simp only: sparsity_def r1 r2 r3 r4 r5 r6 bind_err_def sum.case)
qed

lemma nth_base_row: "k < N \<Longrightarrow> j < C \<Longrightarrow> base_row N C ! (k * C + j) = int k"
proof -
  assume a: "k < N" "j < C"
  have "k * C + j < length (np_arange (int N)) * C"
  proof -
    have "k * C + j < k * C + C" using a by simp
    also have "\<dots> = Suc k * C" by simp
    also have "\<dots> \<le> N * C" using a by (intro mult_le_mono1) simp
    finally show ?thesis by (simp add: np_arange_def)
  qed
  then have "base_row N C ! (k * C + j) = np_arange (int N) ! ((k * C + j) div C)"
    unfolding base_row_def by (rule nth_concat_map_replicate)
  also have "(k * C + j) div C = k" using a by simp
  finally show ?thesis using a by (simp add: np_arange_def)
qed

lemma nth_base_col: "k < N \<Longrightarrow> j < C \<Longrightarrow> base_col N C ! (k * C + j) = int j"
proof -
  assume a: "k < N" "j < C"
  have "k * C + j < N * length (np_arange (int C))"
  proof -
    have "k * C + j < k * C + C" using a by simp
    also have "\<dots> = Suc k * C" by simp
    also have "\<dots> \<le> N * C" using a by (intro mult_le_mono1) simp
    finally show ?thesis by (simp add: np_arange_def)
  qed
  then have "base_col N C ! (k * C + j) = np_arange (int C) ! ((k * C + j) mod length (np_arange (int C)))"
    unfolding base_col_def by (rule nth_concat_replicate)
  also have "(k * C + j) mod length (np_arange (int C)) = j" using a by (simp add: np_arange_def)
  finally show ?thesis using a by (simp add: np_arange_def)
qed

lemma block_index_bound:
  "b < B \<Longrightarrow> k < N \<Longrightarrow> j < C \<Longrightarrow> b * (N * C) + (k * C + j) < B * (N * (C::nat))"
proof -
  assume a: "b < B" "k < N" "j < C"
  have "k * C + j < k * C + C" using a by simp
  also have "\<dots> = Suc k * C" by simp
  also have "\<dots> \<le> N * C" using a by (intro mult_le_mono1) simp
  finally have 1: "k * C + j < N * C" .
  then have "b * (N * C) + (k * C + j) < Suc b * (N * C)" by simp
  also have "\<dots> \<le> B * (N * C)" using a by (intro mult_le_mono1) simp
  finally show ?thesis .
qed

lemma inner_index_bound: "k < N \<Longrightarrow> j < C \<Longrightarrow> k * C + j < N * (C::nat)"
  using block_index_bound[of 0 1 k N j C] by simp

lemma div_block: "x < m \<Longrightarrow> (b * m + x) div m = (b::nat)"
  by simp

lemma mod_block: "x < m \<Longrightarrow> (b * m + x) mod m = (x::nat)"
  by simp

lemma nth_row_offsets:
  assumes "b < nat vs" "k < N" "j < C"
  shows "row_offsets N C m vs ! (b * (N * C) + (k * C + j)) = m * int b"
proof -
  have i: "k * C + j < N * C" using assms by (rule_tac inner_index_bound)
  have "b * (N * C) + (k * C + j) < length (map ((*) m) (np_arange vs)) * (N * C)"
    using block_index_bound[OF assms] by (simp add: np_arange_def)
  then have "row_offsets N C m vs ! (b * (N * C) + (k * C + j))
      = map ((*) m) (np_arange vs) ! ((b * (N * C) + (k * C + j)) div (N * C))"
    unfolding row_offsets_def by (rule nth_concat_map_replicate)
  also have "(b * (N * C) + (k * C + j)) div (N * C) = b" using i by (rule div_block)
  finally show ?thesis using assms by (simp add: np_arange_def)
qed

lemma nth_tiled:
  assumes "b < B" "k < N" "j < C" "length xs = N * C"
  shows "concat (replicate B xs) ! (b * (N * C) + (k * C + j)) = xs ! (k * C + j)"
proof -
  have i: "k * C + j < N * C" using assms by (rule_tac inner_index_bound)
  have "b * (N * C) + (k * C + j) < B * length xs"
    using block_index_bound[OF assms(1-3)] assms(4) by simp
  then have "concat (replicate B xs) ! (b * (N * C) + (k * C + j))
     = xs ! ((b * (N * C) + (k * C + j)) mod length xs)" by (rule nth_concat_replicate)
  also have "(b * (N * C) + (k * C + j)) mod length xs = k * C + j"
    unfolding assms(4) using i by (rule mod_block)
  finally show ?thesis .
qed

lemma bind_err_Inr_iff:
  "bind_err r f = Inr y \<longleftrightarrow> (\<exists>x. r = Inr x \<and> f x = Inr y)"
  by (cases r) (simp_all add: bind_err_def)

lemma setup_spline_partials:
  assumes "setup_spline mk opts grid n_cp sp c = Inr c'"
  shows "\<exists>rows cols. sparsity (vec_size opts) (length (x_interp_val opts)) n_cp = Inr (rows, cols)
           \<and> declared_partials c' = declared_partials c @ [(fst (snd sp), fst sp, rows, cols)]"
proof -
  obtain a b v u where sp: "sp = (a, b, v, u)" by (cases sp) auto
  from assms show ?thesis
    unfolding setup_spline_def sp Let_def
    by (auto simp: bind_err_Inr_iff)
qed

lemma setup_loop_partials:
  assumes "setup_loop mk opts grid n_cp sps c = Inr c'"
    and "sparsity (vec_size opts) (length (x_interp_val opts)) n_cp = Inr (rows, cols)"
  shows "declared_partials c' =
           declared_partials c @ map (\<lambda>sp. (fst (snd sp), fst sp, rows, cols)) sps"
  using assms
proof (induction sps arbitrary: c)
  case Nil
  then show ?case by simp
next
  case (Cons sp sps)
  from Cons.prems(1) obtain c1 where
    1: "setup_spline mk opts grid n_cp sp c = Inr c1" and
    2: "setup_loop mk opts grid n_cp sps c1 = Inr c'"
    by (auto simp: bind_err_Inr_iff)
  from setup_spline_partials[OF 1] Cons.prems(2)
  have "declared_partials c1 = declared_partials c @ [(fst (snd sp), fst sp, rows, cols)]"
    by auto
  with Cons.IH[OF 2 Cons.prems(2)] show ?case by simp
qed

lemma setup_comp_Inr:
  assumes "setup_comp mk msginfo opts c = Inr c'"
  obtains grid n_cp c1 where "resolve_grid msginfo opts = Inr (grid, n_cp)"
    "setup_loop mk opts grid n_cp (spline_cache c) (c\<lparr>self_n_cp := Some n_cp\<rparr>) = Inr c1"
    "declared_partials c' = declared_partials c1"
  using assms unfolding setup_comp_def
  by (auto simp: bind_err_Inr_iff split: if_splits)


lemma example_grid: "resolve_grid msginfo example_opts = Inr ([0, 1, 2], 3)"
  by (simp add: resolve_grid_def example_opts_def np_arange_def upt_rec)

lemma example_setup: "\<exists>c'. setup_comp example_new msginfo example_opts example_comp = Inr c'"
  unfolding setup_comp_def example_grid
  by (simp add: bind_err_def example_comp_def add_spline_def init_def setup_spline_def
      sparsity_nonneg example_opts_def np_ones_def np_full_def negative_dims_def
      default_cp_val_def first_row_def example_new_def startswith_def)

lemma sublist_append_right: "sublist xs b \<Longrightarrow> sublist xs (a @ b)"
  by (metis append.assoc sublist_def)

lemma names_bsplines:
  "sublist ''x_cp_val'' (msg_bsplines msginfo)" "sublist ''num_cp'' (msg_bsplines msginfo)"
  "sublist ''bsplines'' (msg_bsplines msginfo)"
  unfolding msg_bsplines_def
  by (rule sublist_append_right, simp add: sublist_Cons_right)+

lemma names_both:
  "sublist ''x_cp_val'' (msg_both msginfo)" "sublist ''num_cp'' (msg_both msginfo)"
  unfolding msg_both_def
  by (rule sublist_append_right, simp add: sublist_Cons_right)+

lemma names_neither:
  "sublist ''x_cp_val'' (msg_neither msginfo)" "sublist ''num_cp'' (msg_neither msginfo)"
  unfolding msg_neither_def
  by (rule sublist_append_right, simp add: sublist_Cons_right)+

lemma setup_comp_grid_error:
  "resolve_grid msginfo opts = Inl e \<Longrightarrow> setup_comp InterpND msginfo opts c = Inl e"
  by (simp add: setup_comp_def bind_err_def)

lemma map_int_upt: "map int [0..<m] = [0..int m - 1]"
  by (induction m) (simp_all add: upto_rec2)

lemma arange_upto: "np_arange n = [0..n - 1]"
proof (cases "0 \<le> n")
  case False
  then show ?thesis by (simp add: np_arange_def)
next
  case True
  then show ?thesis using map_int_upt[of "nat n"] by (simp add: np_arange_def)
qed

lemma setup_spline_keeps:
  assumes "setup_spline mk opts grid n_cp sp c = Inr c'"
  shows "self_n_cp c' = self_n_cp c \<and> check_partial_options c' = check_partial_options c
       \<and> spline_cache c' = spline_cache c"
proof -
  obtain a b v u where sp: "sp = (a, b, v, u)" by (cases sp) auto
  from assms show ?thesis
    unfolding setup_spline_def sp Let_def
    by (auto simp: bind_err_Inr_iff)
qed

lemma setup_loop_keeps:
  assumes "setup_loop mk opts grid n_cp sps c = Inr c'"
  shows "self_n_cp c' = self_n_cp c \<and> check_partial_options c' = check_partial_options c
       \<and> spline_cache c' = spline_cache c"
  using assms
proof (induction sps arbitrary: c)
  case Nil
  then show ?case by simp
next
  case (Cons sp sps)
  from Cons.prems obtain c1 where
    1: "setup_spline mk opts grid n_cp sp c = Inr c1" and
    2: "setup_loop mk opts grid n_cp sps c1 = Inr c'"
    by (auto simp: bind_err_Inr_iff)
  from setup_spline_keeps[OF 1] Cons.IH[OF 2] show ?case by simp
qed

lemma setup_comp_cases:
  assumes "setup_comp mk msginfo opts c = Inr c'"
  obtains grid n_cp c1 where "resolve_grid msginfo opts = Inr (grid, n_cp)"
    "setup_loop mk opts grid n_cp (spline_cache c) (c\<lparr>self_n_cp := Some n_cp\<rparr>) = Inr c1"
    "c' = (if startswith (interp_method opts) ''scipy''
           then c1\<lparr>check_partial_options := check_partial_options c1 @ [(''*'', ''fd'')]\<rparr>
           else c1)"
  using assms unfolding setup_comp_def
  by (auto simp: bind_err_Inr_iff split: if_splits)

lemma not_scipy: "valid_method m \<Longrightarrow> \<not> startswith m ''scipy''"
  by (auto simp: valid_method_def ALL_METHODS_def startswith_def)

lemma sparsity_entries:
  assumes "0 \<le> vs" "0 \<le> n_cp"
  shows "\<exists>rows cols. sparsity vs N n_cp = Inr (rows, cols)
         \<and> length rows = nat vs * (N * nat n_cp)
         \<and> length cols = nat vs * (N * nat n_cp)
         \<and> (\<forall>b < nat vs. \<forall>k < N. \<forall>j < nat n_cp.
               rows ! (b * (N * nat n_cp) + (k * nat n_cp + j)) = int (b * N + k)
             \<and> cols ! (b * (N * nat n_cp) + (k * nat n_cp + j)) = int (b * nat n_cp + j))"
proof -
  define B where "B = nat vs"
  define C where "C = nat n_cp"
  define rows where
    "rows = map2 (+) (concat (replicate B (base_row N C))) (row_offsets N C (int N) vs)"
  define cols where
    "cols = map2 (+) (concat (replicate B (base_col N C))) (row_offsets N C n_cp vs)"
  have sp: "sparsity vs N n_cp = Inr (rows, cols)"
    unfolding rows_def cols_def B_def C_def using assms by (rule sparsity_nonneg)
  have lr: "length rows = B * (N * C)"
    by (simp add: rows_def length_concat_replicate length_base_row length_row_offsets B_def)
  have lc: "length cols = B * (N * C)"
    by (simp add: cols_def length_concat_replicate length_base_col length_row_offsets B_def)
  have el: "rows ! (b * (N * C) + (k * C + j)) = int (b * N + k)
          \<and> cols ! (b * (N * C) + (k * C + j)) = int (b * C + j)"
    if "b < B" "k < N" "j < C" for b k j
  proof -
    have i: "b * (N * C) + (k * C + j) < B * (N * C)"
      using that by (rule block_index_bound)
    have b': "b < nat vs" using that by (simp add: B_def)
    have 1: "concat (replicate B (base_row N C)) ! (b * (N * C) + (k * C + j)) = int k"
      using nth_tiled[OF that length_base_row] nth_base_row[OF that(2,3)] by simp
    have 2: "concat (replicate B (base_col N C)) ! (b * (N * C) + (k * C + j)) = int j"
      using nth_tiled[OF that length_base_col] nth_base_col[OF that(2,3)] by simp
    have 3: "row_offsets N C m vs ! (b * (N * C) + (k * C + j)) = m * int b" for m
      using b' that(2,3) by (rule nth_row_offsets)
    have "rows ! (b * (N * C) + (k * C + j)) = int k + int N * int b"
      unfolding rows_def using i 1 3
      by (simp add: length_concat_replicate length_base_row length_row_offsets B_def)
    moreover have "cols ! (b * (N * C) + (k * C + j)) = int j + n_cp * int b"
      unfolding cols_def using i 2 3
      by (simp add: length_concat_replicate length_base_col length_row_offsets B_def)
    moreover have "int C = n_cp" using assms by (simp add: C_def)
    ultimately show ?thesis by (simp add: add.assoc mult.commute)
  qed
  show ?thesis
    apply (rule exI[of _ rows], rule exI[of _ cols])
    using sp lr lc el unfolding B_def C_def by blast
qed

lemma flat_index_split:
  assumes "i < B * (N * (C::nat))"
  shows "i div (N * C) < B \<and> (i mod (N * C)) div C < N \<and> i mod C < C
       \<and> i = (i div (N * C)) * (N * C) + (((i mod (N * C)) div C) * C + i mod C)"
proof -
  have nc: "0 < N * C" using assms by (cases "N * C") auto
  then have c: "0 < C" and n: "0 < N" by auto
  have 1: "i div (N * C) < B" using assms nc
    by (simp add: less_mult_imp_div_less mult.commute)
  have "i mod (N * C) < N * C" using nc by simp
  then have 2: "(i mod (N * C)) div C < N"
    using c by (simp add: less_mult_imp_div_less)
  have 3: "i mod C < C" using c by simp
  have "(i mod (N * C)) mod C = i mod C"
    by (simp add: mod_mult2_eq mult.commute)
  then have "i mod (N * C) = ((i mod (N * C)) div C) * C + i mod C"
    by (metis div_mult_mod_eq)
  then have 4: "i = (i div (N * C)) * (N * C) + (((i mod (N * C)) div C) * C + i mod C)"
    by (metis div_mult_mod_eq)
  from 1 2 3 4 show ?thesis by blast
qed

lemma int_div_block: "k < N \<Longrightarrow> int (b * N + k) div int N = int b"
  by (simp add: zdiv_int[symmetric] div_block del: of_nat_add of_nat_mult)

lemma setup_spline_inputs:
  assumes "setup_spline mk opts grid n_cp (y_cp_name, y_interp_name, y_cp_val, y_units) c = Inr c'"
  shows "\<exists>val. default_cp_val (vec_size opts) n_cp y_cp_val = Inr val
           \<and> added_inputs c' = added_inputs c @ [(y_cp_name, val)]"
  using assms unfolding setup_spline_def Let_def
  by (auto simp: bind_err_Inr_iff)

lemma np_ones_2: "0 \<le> r \<Longrightarrow> 0 \<le> c \<Longrightarrow>
  np_ones [r, c] = Inr (NDArray [nat r, nat c] (replicate (nat r * nat c) 1))"
  by (simp add: np_ones_def np_full_def negative_dims_def)

lemma np_reshape2_nonneg: "0 \<le> r \<Longrightarrow> 0 \<le> c \<Longrightarrow>
  np_reshape2 a r c = (if prod_list (shape a) = nat r * nat c
                       then Inr (NDArray [nat r, nat c] (data a)) else Inl reshape_error)"
  by (auto simp: np_reshape2_def Let_def)

lemma compute_loop_append:
  "compute_loop ev msginfo opts i2c inputs (xs @ ys) r =
     (case compute_loop ev msginfo opts i2c inputs xs r of
        (r1, None) \<Rightarrow> compute_loop ev msginfo opts i2c inputs ys r1
      | (r1, Some e) \<Rightarrow> (r1, Some e))"
proof (induction xs arbitrary: r)
  case Nil
  then show ?case by simp
next
  case (Cons x xs)
  obtain n e where x: "x = (n, e)" by (cases x)
  show ?case unfolding x
    by (simp add: Cons.IH Let_def split: option.splits prod.splits sum.splits error.splits)
qed

lemma compute_loop_evaluated:
  "compute_loop ev msginfo opts i2c inputs xs r = (r1, None) \<Longrightarrow>
     evaluated r1 = evaluated r @ map fst xs
   \<and> (\<forall>n. n \<notin> fst ` set xs \<longrightarrow> outputs r1 n = outputs r n)"
proof (induction xs arbitrary: r)
  case Nil
  then show ?case by simp
next
  case (Cons x xs)
  obtain n e where x: "x = (n, e)" by (cases x)
  from Cons.prems obtain cp v y e' where
    s: "map_of i2c n = Some cp" "inputs cp = Some v"
       "ev (e\<lparr>compute_d_dvalues := True, compute_d_dx := False,
                x_interp := x_interp_val opts\<rparr>) v = (Inr y, e')"
       "compute_loop ev msginfo opts i2c inputs xs
          (r\<lparr>engines := AList.update n e' (engines r), evaluated := evaluated r @ [n],
             outputs := (outputs r)(n \<mapsto> y)\<rparr>) = (r1, None)"
    unfolding x
    by (auto simp: Let_def split: option.splits prod.splits sum.splits error.splits)
  from Cons.IH[OF s(4)] show ?case unfolding x by auto
qed

lemma sublist_middle: "sublist xs (a @ xs @ b)"
  by (rule sublist_appendI)

lemma msg_interp_names:
  "sublist out_name (msg_interp msginfo out_name err)"
  "sublist err (msg_interp msginfo out_name err)"
proof -
  have "msg_interp msginfo out_name err =
          (msginfo @ '': Error interpolating output '' @ [CHR 0x27]) @ out_name
            @ ([CHR 0x27] @ '':'' @ [CHR 0x0A] @ err)"
    by (simp add: msg_interp_def)
  then show "sublist out_name (msg_interp msginfo out_name err)"
    by (metis sublist_appendI)
  have "msg_interp msginfo out_name err =
          (msginfo @ '': Error interpolating output '' @ [CHR 0x27] @ out_name
            @ [CHR 0x27] @ '':'' @ [CHR 0x0A]) @ err @ []"
    by (simp add: msg_interp_def)
  then show "sublist err (msg_interp msginfo out_name err)"
    by (metis sublist_appendI)
qed

lemma length_broadcast_data: "length (broadcast_data s d t) = prod_list t"
  by (simp add: broadcast_data_def)

lemma np_zeros3_Inr:
  assumes "np_zeros [vs, int N, n_cp] = Inr z"
  shows "0 \<le> vs \<and> 0 \<le> n_cp \<and> shape z = [nat vs, N, nat n_cp]"
  using assms by (auto simp: np_zeros_def np_full_def negative_dims_def split: if_splits)

lemma np_zeros2_Inr:
  assumes "np_zeros [int N, n_cp] = Inr z"
  shows "0 \<le> n_cp \<and> shape z = [N, nat n_cp]"
  using assms by (auto simp: np_zeros_def np_full_def negative_dims_def split: if_splits)

lemma np_assign_length: "np_assign t src = Inr v \<Longrightarrow> length v = prod_list t"
  by (auto simp: np_assign_def Let_def length_broadcast_data split: if_splits)

lemma np_broadcast_to3_Inr:
  assumes "np_broadcast_to a [vs, int N, n_cp] = Inr b"
  shows "0 \<le> vs \<and> 0 \<le> n_cp \<and> shape b = [nat vs, N, nat n_cp]
       \<and> length (data b) = nat vs * (N * nat n_cp)"
  using assms
  by (auto simp: np_broadcast_to_def negative_dims_def Let_def length_broadcast_data
           split: if_splits)

lemma assemble_shape:
  assumes "assemble tg opts n_cp e = Inr dy"
  shows "0 \<le> vec_size opts \<and> 0 \<le> n_cp
       \<and> shape dy = [nat (vec_size opts), length (x_interp_val opts), nat n_cp]
       \<and> length (data dy) = nat (vec_size opts) * (length (x_interp_val opts) * nat n_cp)"
proof (cases "d_dvalues e")
  case None
  with assms show ?thesis
    unfolding assemble_def Let_def
    by (auto simp: bind_err_Inr_iff dest!: np_broadcast_to3_Inr)
next
  case (Some d)
  with assms obtain z where z: "np_zeros [vec_size opts, int (length (x_interp_val opts)), n_cp] = Inr z"
    unfolding assemble_def Let_def by (auto simp: bind_err_Inr_iff)
  note zs = np_zeros3_Inr[OF z]
  from assms Some z have "\<exists>src v. np_assign (shape z) src = Inr v \<and> dy = NDArray (shape z) v"
    unfolding assemble_def Let_def
    by (auto simp: bind_err_def split: list.splits if_splits deriv.splits sum.splits)
  then obtain src v where v: "np_assign (shape z) src = Inr v" "dy = NDArray (shape z) v" by blast
  from np_assign_length[OF v(1)] v(2) zs show ?thesis by simp
qed

lemma compute_partials_loop_keeps:
  "compute_partials_loop tg opts n i2c xs p = Inr p' \<Longrightarrow> out \<notin> fst ` set xs
     \<Longrightarrow> p' (out, cp) = p (out, cp)"
proof (induction xs arbitrary: p)
  case Nil
  then show ?case by simp
next
  case (Cons x xs)
  obtain o' e where x: "x = (o', e)" by (cases x)
  from Cons.prems(1) obtain cp' nn dy where
    s: "map_of i2c o' = Some cp'" "n = Some nn" "assemble tg opts nn e = Inr dy"
       "compute_partials_loop tg opts n i2c xs (p((o', cp') \<mapsto> flatten dy)) = Inr p'"
    unfolding x by (auto simp: bind_err_Inr_iff split: option.splits)
  from Cons.prems(2) have "out \<noteq> o'" "out \<notin> fst ` set xs" unfolding x by auto
  with Cons.IH[OF s(4)] show ?case by simp
qed

lemma compute_partials_loop_entry:
  "compute_partials_loop tg opts n i2c xs p = Inr p' \<Longrightarrow> (out, e) \<in> set xs
     \<Longrightarrow> distinct (map fst xs) \<Longrightarrow> map_of i2c out = Some cp
     \<Longrightarrow> \<exists>nn dy. n = Some nn \<and> assemble tg opts nn e = Inr dy \<and> p' (out, cp) = Some (flatten dy)"
proof (induction xs arbitrary: p)
  case Nil
  then show ?case by simp
next
  case (Cons x xs)
  obtain o' e' where x: "x = (o', e')" by (cases x)
  from Cons.prems(1) obtain cp' nn dy where
    s: "map_of i2c o' = Some cp'" "n = Some nn" "assemble tg opts nn e' = Inr dy"
       "compute_partials_loop tg opts n i2c xs (p((o', cp') \<mapsto> flatten dy)) = Inr p'"
    unfolding x by (auto simp: bind_err_Inr_iff split: option.splits)
  show ?case
  proof (cases "(out, e) = (o', e')")
    case True
    with Cons.prems(3) have "out \<notin> fst ` set xs" unfolding x by auto
    from compute_partials_loop_keeps[OF s(4) this, of cp] True s(1) Cons.prems(4)
    have "p' (out, cp) = Some (flatten dy)" by simp
    with s(2,3) True show ?thesis by auto
  next
    case False
    with Cons.prems(2) have "(out, e) \<in> set xs" unfolding x by auto
    moreover from Cons.prems(3) have "distinct (map fst xs)" by simp
    ultimately show ?thesis using Cons.IH[OF s(4) _ _ Cons.prems(4)] by blast
  qed
qed

lemma int_mod_block: "k < N \<Longrightarrow> int (b * N + k) mod int N = int k"
  by (simp add: zmod_int[symmetric] mod_block del: of_nat_add of_nat_mult)

lemma example_assemble:
  "assemble example_grad example_opts 3 example_engine
     = Inr (NDArray [2, 2, 3] [1/2, 1/2, 0, -1/2, 3/2, 0, 1/2, 1/2, 0, -1/2, 3/2, 0])"
  by code_simp

lemma example_partials:
  "compute_partials example_grad example_opts ready_comp Map.empty
     = Inr [(''y'', ''ycp'') \<mapsto> [1/2, 1/2, 0, -1/2, 3/2, 0, 1/2, 1/2, 0, -1/2, 3/2, 0]]"
  by (simp add: compute_partials_def ready_comp_def init_def example_assemble bind_err_def
      flatten_def)

lemma broadcast_data_nth:
  "i < prod_list t \<Longrightarrow> broadcast_data s d t ! i = d ! src_offset s t i"
  by (simp add: broadcast_data_def)

lemma broadcast_leading_one:
  "broadcast_data (Suc 0 # ss) d (B # ts) = concat (replicate B (broadcast_data ss d ts))"
proof (rule nth_equalityI)
  show "length (broadcast_data (Suc 0 # ss) d (B # ts))
          = length (concat (replicate B (broadcast_data ss d ts)))"
    by (simp add: length_broadcast_data length_concat_replicate)
next
  fix i assume "i < length (broadcast_data (Suc 0 # ss) d (B # ts))"
  then have i: "i < B * prod_list ts" by (simp add: length_broadcast_data)
  then have p: "0 < prod_list ts" by (cases "prod_list ts") auto
  have "broadcast_data (Suc 0 # ss) d (B # ts) ! i = d ! src_offset ss ts (i mod prod_list ts)"
    using i by (simp add: broadcast_data_nth)
  also have "\<dots> = broadcast_data ss d ts ! (i mod prod_list ts)"
    using p by (simp add: broadcast_data_nth)
  also have "\<dots> = concat (replicate B (broadcast_data ss d ts)) ! i"
    using nth_concat_replicate[of i B "broadcast_data ss d ts"] i
    by (simp add: length_broadcast_data)
  finally show "broadcast_data (Suc 0 # ss) d (B # ts) ! i
                  = concat (replicate B (broadcast_data ss d ts)) ! i" .
qed

lemma src_offset_same: "i < prod_list t \<Longrightarrow> src_offset t t i = i"
proof (induction t arbitrary: i)
  case Nil
  then show ?case by simp
next
  case (Cons s ss)
  from Cons.prems have p: "0 < prod_list ss" by (cases "prod_list ss") auto
  then have m: "i mod prod_list ss < prod_list ss" by simp
  show ?case
  proof (cases "s = 1")
    case True
    with Cons.prems have "i < prod_list ss" by simp
    with Cons.IH[OF m] True show ?thesis by simp
  next
    case False
    with Cons.IH[OF m] show ?thesis by simp
  qed
qed

lemma broadcast_data_same: "length d = prod_list t \<Longrightarrow> broadcast_data t d t = d"
  by (rule nth_equalityI) (simp_all add: length_broadcast_data broadcast_data_nth src_offset_same)

lemma np_assign_same:
  assumes "length t = 3" "length d = prod_list t"
  shows "np_assign t (NDArray t d) = Inr d"
proof -
  obtain a b c where t: "t = [a, b, c]"
    using assms(1) by (cases t; cases "tl t"; cases "tl (tl t)") auto
  have b: "broadcastable [a, b, c] [a, b, c]" by simp
  show ?thesis
    using assms(2) broadcast_data_same[of d t] b
    unfolding t by (simp add: np_assign_def pad_shape_def)
qed

lemma np_broadcast_to3_data:
  assumes "np_broadcast_to a [vs, int N, n_cp] = Inr b"
  shows "length (shape a) \<le> 3
       \<and> broadcastable (pad_shape 3 (shape a)) [nat vs, N, nat n_cp]
       \<and> b = NDArray [nat vs, N, nat n_cp]
               (broadcast_data (pad_shape 3 (shape a)) (data a) [nat vs, N, nat n_cp])"
  using assms
  by (auto simp: np_broadcast_to_def Let_def numeral_3_eq_3 split: if_splits)

lemma assemble_None:
  assumes "d_dvalues e = None" "assemble tg opts n_cp e = Inr dy"
  shows "\<exists>v. data dy = broadcast_data [Suc 0, length (x_interp_val opts), nat n_cp] v
                          [nat (vec_size opts), length (x_interp_val opts), nat n_cp]"
proof -
  from assms obtain z v where
    z: "np_zeros [int (length (x_interp_val opts)), n_cp] = Inr z" and
    b: "np_broadcast_to (NDArray (shape z) v)
          [vec_size opts, int (length (x_interp_val opts)), n_cp] = Inr dy"
    unfolding assemble_def Let_def by (auto simp: bind_err_Inr_iff)
  from np_zeros2_Inr[OF z] have sz: "shape z = [length (x_interp_val opts), nat n_cp]" by simp
  from np_broadcast_to3_data[OF b] show ?thesis
    by (auto simp: sz pad_shape_def)
qed

lemma pad_shape_leading:
  assumes "shape_m = s0 # ss" "length shape_m \<le> 3" "s0 \<noteq> B"
    "broadcastable (pad_shape 3 shape_m) [B, N, C]"
  shows "\<exists>ss'. pad_shape 3 shape_m = Suc 0 # ss'"
proof -
  consider "ss = []" | a where "ss = [a]" | a b where "ss = [a, b]"
    using assms(1,2) by (cases ss; cases "tl ss"; cases "tl (tl ss)") auto
  then show ?thesis
  proof cases
    case 1
    then show ?thesis using assms(1) by (simp add: pad_shape_def numeral_3_eq_3)
  next
    case 2
    then show ?thesis using assms(1) by (simp add: pad_shape_def numeral_3_eq_3)
  next
    case 3
    then show ?thesis using assms(1,3,4) by (simp add: pad_shape_def)
  qed
qed

lemma assemble_Some:
  assumes "d_dvalues e = Some d" "shape (deriv_array d) = s0 # ss" "int s0 \<noteq> vec_size opts"
    "assemble tg opts n_cp e = Inr dy"
  shows "\<exists>ss' v. data dy = broadcast_data (Suc 0 # ss') v
                          [nat (vec_size opts), length (x_interp_val opts), nat n_cp]"
proof -
  define B where "B = nat (vec_size opts)"
  define N where "N = length (x_interp_val opts)"
  define C where "C = nat n_cp"
  from assms obtain z where
    z: "np_zeros [vec_size opts, int N, n_cp] = Inr z"
    unfolding assemble_def Let_def N_def by (auto simp: bind_err_Inr_iff)
  from np_zeros3_Inr[OF z] have nn: "0 \<le> vec_size opts" and sz: "shape z = [B, N, C]"
    by (simp_all add: B_def C_def)
  from assms z obtain m b v where
    d: "d = Sparse m" and
    b: "np_broadcast_to m [vec_size opts, int N, n_cp] = Inr b" and
    v: "np_assign (shape z) b = Inr v" and
    dy: "dy = NDArray (shape z) v"
    unfolding assemble_def Let_def N_def
    by (cases d) (auto simp: bind_err_Inr_iff)
  from np_broadcast_to3_data[OF b] have
    l: "length (shape m) \<le> 3" and
    bc: "broadcastable (pad_shape 3 (shape m)) [B, N, C]" and
    bb: "b = NDArray [B, N, C] (broadcast_data (pad_shape 3 (shape m)) (data m) [B, N, C])"
    by (simp_all add: B_def C_def)
  have "np_assign [B, N, C] b = Inr (data b)"
    unfolding bb by (simp add: np_assign_same length_broadcast_data)
  with v sz have vv: "v = data b" by simp
  from assms(2,3) d nn have s: "shape m = s0 # ss" "s0 \<noteq> B" by (auto simp: B_def)
  from pad_shape_leading[OF s(1) l s(2) bc] obtain ss' where
    "pad_shape 3 (shape m) = Suc 0 # ss'" by blast
  with bb vv dy show ?thesis unfolding B_def N_def C_def by auto
qed

lemma sparse_assemble:
  "assemble example_grad three_opts 3 sparse_engine
     = Inr (NDArray [2, 3, 3] [1, 0, 0, 1, 1, 0, 0, 1, 1, 1, 0, 0, 1, 1, 0, 0, 1, 1])"
  by code_simp

lemma compute_partials_loop_all_ok:
  "compute_partials_loop tg opts n i2c xs p = Inr p' \<Longrightarrow> (out, e) \<in> set xs
     \<Longrightarrow> \<exists>nn dy. n = Some nn \<and> assemble tg opts nn e = Inr dy"
proof (induction xs arbitrary: p)
  case Nil
  then show ?case by simp
next
  case (Cons x xs)
  obtain o' e' where x: "x = (o', e')" by (cases x)
  from Cons.prems(1) obtain cp' nn dy where
    s: "map_of i2c o' = Some cp'" "n = Some nn" "assemble tg opts nn e' = Inr dy"
       "compute_partials_loop tg opts n i2c xs (p((o', cp') \<mapsto> flatten dy)) = Inr p'"
    unfolding x by (auto simp: bind_err_Inr_iff split: option.splits)
  show ?case
  proof (cases "(out, e) = (o', e')")
    case True
    with s(2,3) show ?thesis by auto
  next
    case False
    with Cons.prems(2) have "(out, e) \<in> set xs" unfolding x by auto
    with Cons.IH[OF s(4)] show ?thesis by blast
  qed
qed

lemma compute_partials_aborts:
  assumes "assemble tg opts n_cp e = Inl err" "(out, e) \<in> set (interps c)"
    "self_n_cp c = Some n_cp"
  shows "\<exists>err'. compute_partials tg opts c partials = Inl err'"
proof (cases "compute_partials tg opts c partials")
  case (Inl a)
  then show ?thesis by blast
next
  case (Inr p')
  from compute_partials_loop_all_ok[OF Inr[unfolded compute_partials_def] assms(2)] assms(1,3)
  show ?thesis by simp
qed

lemma src_offset3:
  assumes "b < B" "k < N" "j < C"
  shows "src_offset [s0, n, m] [B, N, C] (b * (N * C) + (k * C + j))
           = (if s0 = 1 then 0 else b * (n * m))
             + ((if n = 1 then 0 else k * m) + (if m = 1 then 0 else j))"
proof -
  have i: "k * C + j < N * C" using assms(2,3) by (rule inner_index_bound)
  have 1: "(b * (N * C) + (k * C + j)) div (N * C) = b" using i by (rule div_block)
  have 2: "(b * (N * C) + (k * C + j)) mod (N * C) = k * C + j" using i by (rule mod_block)
  have 3: "(k * C + j) div C = k" using assms(3) by (rule div_block)
  have 4: "(k * C + j) mod C = j" using assms(3) by (rule mod_block)
  have 5: "(k * C + j) mod (N * C) = k * C + j" using i by simp
  show ?thesis using assms(3) by (simp add: 1 2 3 4 5)
qed

lemma assemble_Dense:
  assumes "d_dvalues e = Some (Dense (NDArray [s0, n, m] d))" "int s0 = vec_size opts" "0 \<le> n_cp"
  shows "assemble tg opts n_cp e =
          (if (n = length (x_interp_val opts) \<or> n = 1) \<and> (m = nat n_cp \<or> m = 1)
           then Inr (NDArray [s0, length (x_interp_val opts), nat n_cp]
                      (broadcast_data [s0, n, m] d [s0, length (x_interp_val opts), nat n_cp]))
           else Inl (ValueError ''could not broadcast input array''))"
proof -
  have vs: "0 \<le> vec_size opts" "nat (vec_size opts) = s0" using assms(2) by auto
  have z: "np_zeros [vec_size opts, int (length (x_interp_val opts)), n_cp]
             = Inr (NDArray [s0, length (x_interp_val opts), nat n_cp]
                     (replicate (s0 * (length (x_interp_val opts) * nat n_cp)) 0))"
    using vs assms(3) by (simp add: np_zeros_def np_full_def negative_dims_def)
  show ?thesis
    unfolding assemble_def Let_def assms(1) z
    using assms(2)
    by (simp add: bind_err_def np_assign_def pad_shape_def)
qed

lemma np_assign_row:
  "np_assign [C] (NDArray [g] v) =
     (if g = C \<or> g = 1 then Inr (map (\<lambda>j. v ! (if g = 1 then 0 else j)) [0..<C])
      else Inl (ValueError ''could not broadcast input array''))"
  by (auto simp: np_assign_def pad_shape_def broadcast_data_def)

lemma take1_drop: "k < length xs \<Longrightarrow> take (Suc 0) (drop k xs) = [xs ! k]"
  by (simp add: hd_drop_conv_nth take_Suc)

lemma row_index_less: "k' < k \<Longrightarrow> j < C \<Longrightarrow> k' * C + j < k * (C::nat)"
proof -
  assume a: "k' < k" "j < C"
  have "k' * C + j < Suc k' * C" using a by simp
  also have "\<dots> \<le> k * C" using a by (intro mult_le_mono1) simp
  finally show ?thesis .
qed

lemma nth_replace_row:
  assumes "length dy = N * C" "k < N" "length row = C" "k' < N" "j < C"
  shows "(take (k * C) dy @ row @ drop (Suc k * C) dy) ! (k' * C + j)
           = (if k' = k then row ! j else dy ! (k' * C + j))"
proof -
  have kc: "k * C \<le> length dy" using assms(1,2) by simp
  have lt: "length (take (k * C) dy) = k * C" using kc by simp
  consider "k' < k" | "k' = k" | "k < k'" by linarith
  then show ?thesis
  proof cases
    case 1
    then have "k' * C + j < k * C" using assms(5) by (rule row_index_less)
    then show ?thesis using 1 lt by (simp add: nth_append)
  next
    case 2
    then show ?thesis using lt assms(3,5) by (simp add: nth_append)
  next
    case 3
    then have ge: "Suc k * C \<le> k' * C" by (intro mult_le_mono1) simp
    then have 1: "\<not> k' * C + j < k * C" by simp
    have 2: "\<not> k' * C + j - k * C < C" using ge by simp
    have 3: "Suc k * C + (k' * C + j - k * C - C) = k' * C + j" using ge by simp
    have "Suc k * C \<le> N * C" using assms(2) by (intro mult_le_mono1) simp
    then have 4: "Suc k * C \<le> length dy" using assms(1) by simp
    have "(take (k * C) dy @ row @ drop (Suc k * C) dy) ! (k' * C + j)
            = drop (Suc k * C) dy ! (k' * C + j - k * C - C)"
      using 1 2 lt assms(3) by (simp add: nth_append)
    also have "\<dots> = dy ! (Suc k * C + (k' * C + j - k * C - C))"
      using 4 by (subst nth_drop) simp_all
    finally show ?thesis using 3 \<open>k < k'\<close> by simp
  qed
qed

lemma length_replace_row:
  assumes "length dy = N * C" "k < N" "length row = C"
  shows "length (take (k * C) dy @ row @ drop (Suc k * C) dy) = N * C"
proof -
  have "Suc k * C \<le> N * C" using assms(2) by (intro mult_le_mono1) simp
  then show ?thesis using assms by simp
qed

lemma grad_rows_result:
  assumes "\<forall>k \<in> set ks. k < N \<and> tg e [xs ! k] = Inr (NDArray [g k] (v k))"
    and "length xs = N" "distinct ks" "length dy = N * C"
  shows "grad_rows tg e xs C ks dy =
           (if \<forall>k \<in> set ks. g k = C \<or> g k = 1
            then Inr (map (\<lambda>i. if i div C \<in> set ks
                                then v (i div C) ! (if g (i div C) = 1 then 0 else i mod C)
                                else dy ! i) [0..<N * C])
            else Inl (ValueError ''could not broadcast input array''))"
  using assms
proof (induction ks arbitrary: dy)
  case Nil
  have "map ((!) dy) [0..<length dy] = dy" by (rule map_nth)
  then show ?case using Nil.prems(4) by simp
next
  case (Cons k ks)
  from Cons.prems(1) have kN: "k < N" and tgk: "tg e [xs ! k] = Inr (NDArray [g k] (v k))"
    by simp_all
  have t: "take (Suc 0) (drop k xs) = [xs ! k]" using kN Cons.prems(2) by (simp add: take1_drop)
  show ?case
  proof (cases "g k = C \<or> g k = 1")
    case False
    then show ?thesis
      by (simp add: t tgk bind_err_def np_assign_row)
  next
    case True
    define row where "row = map (\<lambda>j. v k ! (if g k = 1 then 0 else j)) [0..<C]"
    define dy1 where "dy1 = take (k * C) dy @ row @ drop (Suc k * C) dy"
    have lrow: "length row = C" by (simp add: row_def)
    have l1: "length dy1 = N * C"
      unfolding dy1_def using Cons.prems(4) kN lrow by (rule length_replace_row)
    have step: "grad_rows tg e xs C (k # ks) dy = grad_rows tg e xs C ks dy1"
      using True by (simp add: t tgk bind_err_def np_assign_row row_def dy1_def)
    have ih: "grad_rows tg e xs C ks dy1 =
           (if \<forall>k \<in> set ks. g k = C \<or> g k = 1
            then Inr (map (\<lambda>i. if i div C \<in> set ks
                                then v (i div C) ! (if g (i div C) = 1 then 0 else i mod C)
                                else dy1 ! i) [0..<N * C])
            else Inl (ValueError ''could not broadcast input array''))"
      using Cons.prems by (intro Cons.IH) (simp_all add: l1)
    have el: "(if i div C \<in> set ks
                then v (i div C) ! (if g (i div C) = 1 then 0 else i mod C)
                else dy1 ! i)
            = (if i div C \<in> set (k # ks)
                then v (i div C) ! (if g (i div C) = 1 then 0 else i mod C)
                else dy ! i)"
      if "i < N * C" for i
    proof -
      have c: "0 < C" using that by (cases C) auto
      have d: "i div C < N" using that c by (simp add: less_mult_imp_div_less)
      have m: "i mod C < C" using c by simp
      have i: "i = (i div C) * C + i mod C" by simp
      have "dy1 ! ((i div C) * C + i mod C)
              = (if i div C = k then row ! (i mod C) else dy ! ((i div C) * C + i mod C))"
        unfolding dy1_def using Cons.prems(4) kN lrow d m by (rule nth_replace_row)
      then have r: "dy1 ! i = (if i div C = k then row ! (i mod C) else dy ! i)" by simp
      have rw: "row ! (i mod C) = v k ! (if g k = 1 then 0 else i mod C)"
        using m by (simp add: row_def)
      from Cons.prems(3) have "k \<notin> set ks" by simp
      then show ?thesis using r rw by auto
    qed
    have "map (\<lambda>i. if i div C \<in> set ks
                                then v (i div C) ! (if g (i div C) = 1 then 0 else i mod C)
                                else dy1 ! i) [0..<N * C]
        = map (\<lambda>i. if i div C \<in> set (k # ks)
                                then v (i div C) ! (if g (i div C) = 1 then 0 else i mod C)
                                else dy ! i) [0..<N * C]"
      by (rule map_cong) (simp_all add: el)
    with step ih True show ?thesis by simp
  qed
qed

lemma np_zeros3_nonneg:
  "0 \<le> vs \<Longrightarrow> 0 \<le> n_cp \<Longrightarrow>
     np_zeros [vs, int N, n_cp]
       = Inr (NDArray [nat vs, N, nat n_cp] (replicate (nat vs * (N * nat n_cp)) 0))"
  by (simp add: np_zeros_def np_full_def negative_dims_def)

lemma np_zeros2_nonneg:
  "0 \<le> n_cp \<Longrightarrow>
     np_zeros [int N, n_cp] = Inr (NDArray [N, nat n_cp] (replicate (N * nat n_cp) 0))"
  by (simp add: np_zeros_def np_full_def negative_dims_def)

lemma np_broadcast_to_2d:
  "0 \<le> vs \<Longrightarrow> 0 \<le> n_cp \<Longrightarrow>
     np_broadcast_to (NDArray [r, c] d) [vs, int N, n_cp]
       = (if (r = N \<or> r = 1) \<and> (c = nat n_cp \<or> c = 1)
          then Inr (NDArray [nat vs, N, nat n_cp]
                     (broadcast_data [1, r, c] d [nat vs, N, nat n_cp]))
          else Inl (ValueError ''operands could not be broadcast together with remapped shapes''))"
  by (auto simp: np_broadcast_to_def negative_dims_def pad_shape_def Let_def)

lemma assemble_Sparse2:
  assumes "d_dvalues e = Some (Sparse (NDArray [r, c] d))" "int r \<noteq> vec_size opts"
    "0 \<le> vec_size opts" "0 \<le> n_cp"
  shows "assemble tg opts n_cp e =
          (if (r = length (x_interp_val opts) \<or> r = 1) \<and> (c = nat n_cp \<or> c = 1)
           then Inr (NDArray [nat (vec_size opts), length (x_interp_val opts), nat n_cp]
                      (broadcast_data [1, r, c] d
                         [nat (vec_size opts), length (x_interp_val opts), nat n_cp]))
           else Inl (ValueError ''operands could not be broadcast together with remapped shapes''))"
proof -
  define t where "t = [nat (vec_size opts), length (x_interp_val opts), nat n_cp]"
  have lt: "length t = 3" by (simp add: t_def)
  have a: "np_assign t (NDArray t (broadcast_data [1, r, c] d t))
             = Inr (broadcast_data [1, r, c] d t)"
    using lt by (rule np_assign_same) (simp add: length_broadcast_data)
  show ?thesis
    unfolding assemble_def Let_def assms(1)
    using assms(2) a[unfolded t_def]
    by (simp add: bind_err_def np_zeros3_nonneg[OF assms(3,4)]
        np_broadcast_to_2d[OF assms(3,4)])
qed

lemma assemble_queried:
  assumes "d_dvalues e = None" "0 \<le> vec_size opts" "0 \<le> n_cp"
    and "\<forall>k < length (x_interp_val opts).
           tg e [x_interp_val opts ! k] = Inr (NDArray [g k] (v k))"
  shows "assemble tg opts n_cp e =
          (if \<forall>k < length (x_interp_val opts). g k = nat n_cp \<or> g k = 1
           then Inr (NDArray [nat (vec_size opts), length (x_interp_val opts), nat n_cp]
                      (broadcast_data [1, length (x_interp_val opts), nat n_cp]
                         (map (\<lambda>i. v (i div nat n_cp)
                                      ! (if g (i div nat n_cp) = 1 then 0 else i mod nat n_cp))
                              [0..<length (x_interp_val opts) * nat n_cp])
                         [nat (vec_size opts), length (x_interp_val opts), nat n_cp]))
           else Inl (ValueError ''could not broadcast input array''))"
proof -
  define N where "N = length (x_interp_val opts)"
  define C where "C = nat n_cp"
  have h: "\<forall>k \<in> set [0..<N]. k < N \<and> tg e [x_interp_val opts ! k] = Inr (NDArray [g k] (v k))"
    using assms(4) by (simp add: N_def)
  have gr: "grad_rows tg e (x_interp_val opts) C [0..<N] (replicate (N * C) 0) =
           (if \<forall>k \<in> set [0..<N]. g k = C \<or> g k = 1
            then Inr (map (\<lambda>i. if i div C \<in> set [0..<N]
                                then v (i div C) ! (if g (i div C) = 1 then 0 else i mod C)
                                else replicate (N * C) 0 ! i) [0..<N * C])
            else Inl (ValueError ''could not broadcast input array''))"
    using h by (rule grad_rows_result) (simp_all add: N_def)
  have mp: "map (\<lambda>i. if i div C \<in> set [0..<N]
                                then v (i div C) ! (if g (i div C) = 1 then 0 else i mod C)
                                else replicate (N * C) 0 ! i) [0..<N * C]
          = map (\<lambda>i. v (i div C) ! (if g (i div C) = 1 then 0 else i mod C)) [0..<N * C]"
  proof (rule map_cong)
    fix i assume "i \<in> set [0..<N * C]"
    then have i: "i < N * C" by simp
    then have "0 < C" by (cases C) auto
    with i have "i div C < N" by (simp add: less_mult_imp_div_less)
    then show "(if i div C \<in> set [0..<N]
                 then v (i div C) ! (if g (i div C) = 1 then 0 else i mod C)
                 else replicate (N * C) 0 ! i)
             = v (i div C) ! (if g (i div C) = 1 then 0 else i mod C)" by simp
  qed simp
  have q: "(\<forall>k \<in> set [0..<N]. g k = C \<or> g k = 1) = (\<forall>k < N. g k = C \<or> g k = 1)" by auto
  note gr' = gr[unfolded mp q, unfolded N_def C_def]
  show ?thesis
    unfolding assemble_def Let_def assms(1)
    by (simp add: bind_err_def np_zeros2_nonneg[OF assms(3)] gr'
        np_broadcast_to_2d[OF assms(2,3)])
qed

lemma item_broadcast3:
  assumes "b < B" "k < N" "j < C"
  shows "item (NDArray [B, N, C] (broadcast_data [s0, n, m] d [B, N, C])) [b, k, j]
           = d ! ((if s0 = 1 then 0 else b * (n * m))
                  + ((if n = 1 then 0 else k * m) + (if m = 1 then 0 else j)))"
proof -
  have i: "b * (N * C) + (k * C + j) < B * (N * C)" using assms by (rule block_index_bound)
  have "item (NDArray [B, N, C] (broadcast_data [s0, n, m] d [B, N, C])) [b, k, j]
          = broadcast_data [s0, n, m] d [B, N, C] ! (b * (N * C) + (k * C + j))"
    by (simp add: item_def)
  also have "\<dots> = d ! src_offset [s0, n, m] [B, N, C] (b * (N * C) + (k * C + j))"
    using i by (simp add: broadcast_data_nth)
  finally show ?thesis using assms by (simp only: src_offset3)
qed

lemma item_3d: "item (NDArray [a, n, m] d) [b, k, j] = d ! (b * (n * m) + (k * m + j))"
  by (simp add: item_def)

lemma item_2d: "item (NDArray [n, m] d) [k, j] = d ! (k * m + j)"
  by (simp add: item_def)

lemma item_1d: "item (NDArray [n] d) [j] = d ! j"
  by (simp add: item_def)

lemma dense_items:
  assumes "b < B" "k < N" "j < C"
  shows "item (NDArray [B, N, C] (broadcast_data [B, n, m] d [B, N, C])) [b, k, j]
           = item (NDArray [B, n, m] d) [b, if n = 1 then 0 else k, if m = 1 then 0 else j]"
proof -
  have "item (NDArray [B, N, C] (broadcast_data [B, n, m] d [B, N, C])) [b, k, j]
          = d ! ((if B = 1 then 0 else b * (n * m))
                  + ((if n = 1 then 0 else k * m) + (if m = 1 then 0 else j)))"
    using assms by (rule item_broadcast3)
  also have "(if B = 1 then 0 else b * (n * m)) = b * (n * m)" using assms(1) by simp
  finally show ?thesis by (simp add: item_3d)
qed

lemma sparse_items:
  assumes "b < B" "k < N" "j < C"
  shows "item (NDArray [B, N, C] (broadcast_data [1, r, c] d [B, N, C])) [b, k, j]
           = item (NDArray [r, c] d) [if r = 1 then 0 else k, if c = 1 then 0 else j]"
proof -
  have "item (NDArray [B, N, C] (broadcast_data [1, r, c] d [B, N, C])) [b, k, j]
          = d ! ((if (1::nat) = 1 then 0 else b * (r * c))
                  + ((if r = 1 then 0 else k * c) + (if c = 1 then 0 else j)))"
    using assms by (rule item_broadcast3)
  then show ?thesis by (simp add: item_2d)
qed

lemma queried_items:
  assumes "b < B" "k < N" "j < C"
  shows "item (NDArray [B, N, C]
                 (broadcast_data [1, N, C]
                    (map (\<lambda>i. v (i div C) ! (if g (i div C) = 1 then 0 else i mod C)) [0..<N * C])
                    [B, N, C])) [b, k, j]
           = item (NDArray [g k] (v k)) [if g k = 1 then 0 else j]"
proof -
  define w where
    "w = map (\<lambda>i. v (i div C) ! (if g (i div C) = 1 then 0 else i mod C)) [0..<N * C]"
  have i: "k * C + j < N * C" using assms(2,3) by (rule inner_index_bound)
  have d: "(k * C + j) div C = k" using assms(3) by (rule div_block)
  have m: "(k * C + j) mod C = j" using assms(3) by (rule mod_block)
  have o: "(if (1::nat) = 1 then 0 else b * (N * C))
           + ((if N = 1 then 0 else k * C) + (if C = 1 then 0 else j)) = k * C + j"
    using assms(2,3) by auto
  have "item (NDArray [B, N, C] (broadcast_data [1, N, C] w [B, N, C])) [b, k, j]
          = w ! ((if (1::nat) = 1 then 0 else b * (N * C))
                  + ((if N = 1 then 0 else k * C) + (if C = 1 then 0 else j)))"
    using assms by (rule item_broadcast3)
  also have "\<dots> = w ! (k * C + j)" by (simp only: o)
  also have "\<dots> = v k ! (if g k = 1 then 0 else j)"
    unfolding w_def using i assms(3) by (simp add: d m)
  finally show ?thesis unfolding w_def item_1d .
qed

section \<open>The sparsity pattern\<close>

text \<open>
  C1. When setup succeeds with positive \<open>vec_size\<close> (\<open>B\<close>), \<open>n_interp\<close> and \<open>n_cp\<close>, it
  declares, for every registered spline and in registration order, the same pair of
  index arrays \<open>rows\<close> and \<open>cols\<close> under the names \<open>(y_interp_name, y_cp_name)\<close>. Both have
  length \<open>B * n_interp * n_cp\<close>, and the entry at position
  \<open>b * (n_interp * n_cp) + k * n_cp + j\<close> has row \<open>b * n_interp + k\<close> and column
  \<open>b * n_cp + j\<close>.
\<close>

theorem sparsity_pattern:
  assumes ok: "setup_comp InterpND msginfo opts c = Inr c'"
    and grid: "resolve_grid msginfo opts = Inr (grid, n_cp)"
    and pos: "0 < vec_size opts" "0 < length (x_interp_val opts)" "0 < n_cp"
  shows "\<exists>rows cols.
           declared_partials c' =
             declared_partials c @
               map (\<lambda>(y_cp_name, y_interp_name, y_cp_val, y_units).
                      (y_interp_name, y_cp_name, rows, cols)) (spline_cache c)
         \<and> length rows = nat (vec_size opts) * length (x_interp_val opts) * nat n_cp
         \<and> length cols = nat (vec_size opts) * length (x_interp_val opts) * nat n_cp
         \<and> (\<forall>b < nat (vec_size opts). \<forall>k < length (x_interp_val opts). \<forall>j < nat n_cp.
               rows ! (b * (length (x_interp_val opts) * nat n_cp) + k * nat n_cp + j)
                 = int b * int (length (x_interp_val opts)) + int k
             \<and> cols ! (b * (length (x_interp_val opts) * nat n_cp) + k * nat n_cp + j)
                 = int b * n_cp + int j)"
proof -
  define B where "B = nat (vec_size opts)"
  define N where "N = length (x_interp_val opts)"
  define C where "C = nat n_cp"
  define rows where
    "rows = map2 (+) (concat (replicate B (base_row N C))) (row_offsets N C (int N) (vec_size opts))"
  define cols where
    "cols = map2 (+) (concat (replicate B (base_col N C))) (row_offsets N C n_cp (vec_size opts))"
  have sp: "sparsity (vec_size opts) N n_cp = Inr (rows, cols)"
    unfolding rows_def cols_def B_def C_def
    using pos by (intro sparsity_nonneg) simp_all
  from ok obtain g n c1 where
    r: "resolve_grid msginfo opts = Inr (g, n)" and
    l: "setup_loop InterpND opts g n (spline_cache c) (c\<lparr>self_n_cp := Some n\<rparr>) = Inr c1" and
    d: "declared_partials c' = declared_partials c1"
    by (rule setup_comp_Inr)
  from r grid have gn: "g = grid" "n = n_cp" by simp_all
  have decl: "declared_partials c' =
      declared_partials c @ map (\<lambda>sp. (fst (snd sp), fst sp, rows, cols)) (spline_cache c)"
    using setup_loop_partials[OF l[unfolded gn] sp[unfolded N_def]] d by simp
  have m: "(\<lambda>sp::spline. (fst (snd sp), fst sp, rows, cols))
         = (\<lambda>(y_cp_name, y_interp_name, y_cp_val, y_units). (y_interp_name, y_cp_name, rows, cols))"
    by (auto simp: fun_eq_iff)
  have lr: "length rows = B * N * C"
    by (simp add: rows_def length_concat_replicate length_base_row length_row_offsets B_def)
  have lc: "length cols = B * N * C"
    by (simp add: cols_def length_concat_replicate length_base_col length_row_offsets B_def)
  have el: "rows ! (b * (N * C) + k * C + j) = int b * int N + int k
          \<and> cols ! (b * (N * C) + k * C + j) = int b * n_cp + int j"
    if "b < B" "k < N" "j < C" for b k j
  proof -
    have i: "b * (N * C) + (k * C + j) < B * (N * C)"
      using that by (rule block_index_bound)
    have b': "b < nat (vec_size opts)" using that by (simp add: B_def)
    have 1: "concat (replicate B (base_row N C)) ! (b * (N * C) + (k * C + j)) = int k"
      using nth_tiled[OF that length_base_row] nth_base_row[OF that(2,3)] by simp
    have 2: "concat (replicate B (base_col N C)) ! (b * (N * C) + (k * C + j)) = int j"
      using nth_tiled[OF that length_base_col] nth_base_col[OF that(2,3)] by simp
    have 3: "row_offsets N C m (vec_size opts) ! (b * (N * C) + (k * C + j)) = m * int b" for m
      using b' that(2,3) by (rule nth_row_offsets)
    have "rows ! (b * (N * C) + (k * C + j)) = int k + int N * int b"
      unfolding rows_def using i 1 3
      by (simp add: length_concat_replicate length_base_row length_row_offsets B_def)
    moreover have "cols ! (b * (N * C) + (k * C + j)) = int j + n_cp * int b"
      unfolding cols_def using i 2 3
      by (simp add: length_concat_replicate length_base_col length_row_offsets B_def)
    ultimately show ?thesis by (simp add: add.assoc mult.commute)
  qed
  show ?thesis
    apply (rule exI[of _ rows], rule exI[of _ cols])
    using decl lr lc el unfolding m B_def N_def C_def by blast
qed

theorem sparsity_pattern_witness:
  "\<exists>c' rows cols.
      setup_comp example_new ''spl'' example_opts example_comp = Inr c'
    \<and> declared_partials c' = [(''y'', ''ycp'', rows, cols)]
    \<and> length rows = 12 \<and> rows ! 7 = 2 \<and> cols ! 7 = 4"
proof -
  obtain c' where e: "setup_comp example_new ''spl'' example_opts example_comp = Inr c'"
    using example_setup by blast
  have p: "0 < vec_size example_opts" "0 < length (x_interp_val example_opts)" "0 < (3::int)"
    by (simp_all add: example_opts_def)
  from sparsity_pattern[OF e example_grid p] obtain rows cols where
    1: "declared_partials c' = declared_partials example_comp @
               map (\<lambda>(y_cp_name, y_interp_name, y_cp_val, y_units).
                      (y_interp_name, y_cp_name, rows, cols)) (spline_cache example_comp)"
    and 2: "length rows = nat (vec_size example_opts) * length (x_interp_val example_opts) * nat 3"
    and 3: "\<forall>b < nat (vec_size example_opts). \<forall>k < length (x_interp_val example_opts). \<forall>j < nat 3.
               rows ! (b * (length (x_interp_val example_opts) * nat 3) + k * nat 3 + j)
                 = int b * int (length (x_interp_val example_opts)) + int k
             \<and> cols ! (b * (length (x_interp_val example_opts) * nat 3) + k * nat 3 + j)
                 = int b * 3 + int j"
    by blast
  have 4: "rows ! 7 = 2 \<and> cols ! 7 = 4"
    using 3[rule_format, of 1 0 1] by (simp add: example_opts_def)
  from 1 have 5: "declared_partials c' = [(''y'', ''ycp'', rows, cols)]"
    by (simp add: example_comp_def add_spline_def init_def)
  from 2 have 6: "length rows = 12" by (simp add: example_opts_def)
  from e 4 5 6 show ?thesis by blast
qed

text \<open>
  C3. Under the same conditions the declared pattern is block-diagonal by batch: every
  entry pairs a row of batch block \<open>b\<close> (rows \<open>b * n_interp, ..., b * n_interp + n_interp - 1\<close>)
  with a column of the same batch block (columns \<open>b * n_cp, ..., b * n_cp + n_cp - 1\<close>),
  with \<open>0 \<le> b < B\<close>; so two entries in different batch blocks share neither a row nor a
  column.
\<close>

theorem batch_block_diagonal:
  assumes ok: "setup_comp InterpND msginfo opts c = Inr c'"
    and grid: "resolve_grid msginfo opts = Inr (grid, n_cp)"
    and pos: "0 < vec_size opts" "0 < length (x_interp_val opts)" "0 < n_cp"
  shows "\<exists>rows cols.
           declared_partials c' =
             declared_partials c @
               map (\<lambda>(y_cp_name, y_interp_name, y_cp_val, y_units).
                      (y_interp_name, y_cp_name, rows, cols)) (spline_cache c)
         \<and> length cols = length rows
         \<and> (\<forall>i < length rows.
               rows ! i div int (length (x_interp_val opts)) = cols ! i div n_cp
             \<and> 0 \<le> cols ! i div n_cp \<and> cols ! i div n_cp < vec_size opts)
         \<and> (\<forall>i < length rows. \<forall>i' < length rows.
               rows ! i div int (length (x_interp_val opts))
                 \<noteq> rows ! i' div int (length (x_interp_val opts))
               \<longrightarrow> rows ! i \<noteq> rows ! i' \<and> cols ! i \<noteq> cols ! i')"
proof -
  define B where "B = nat (vec_size opts)"
  define N where "N = length (x_interp_val opts)"
  define C where "C = nat n_cp"
  have nn: "0 \<le> vec_size opts" "0 \<le> n_cp" using pos by simp_all
  from sparsity_entries[OF nn, of N] obtain rows cols where
    sp: "sparsity (vec_size opts) N n_cp = Inr (rows, cols)" and
    lr: "length rows = B * (N * C)" and lc: "length cols = B * (N * C)" and
    el: "\<And>b k j. b < B \<Longrightarrow> k < N \<Longrightarrow> j < C \<Longrightarrow>
           rows ! (b * (N * C) + (k * C + j)) = int (b * N + k)
         \<and> cols ! (b * (N * C) + (k * C + j)) = int (b * C + j)"
    unfolding B_def C_def by blast
  from ok obtain g n c1 where
    r: "resolve_grid msginfo opts = Inr (g, n)" and
    l: "setup_loop InterpND opts g n (spline_cache c) (c\<lparr>self_n_cp := Some n\<rparr>) = Inr c1" and
    d: "declared_partials c' = declared_partials c1"
    by (rule setup_comp_Inr)
  from r grid have gn: "g = grid" "n = n_cp" by simp_all
  have m: "(\<lambda>sp::spline. (fst (snd sp), fst sp, rows, cols))
         = (\<lambda>(y_cp_name, y_interp_name, y_cp_val, y_units). (y_interp_name, y_cp_name, rows, cols))"
    by (auto simp: fun_eq_iff)
  have decl: "declared_partials c' =
      declared_partials c @ map (\<lambda>(y_cp_name, y_interp_name, y_cp_val, y_units).
                      (y_interp_name, y_cp_name, rows, cols)) (spline_cache c)"
    using setup_loop_partials[OF l[unfolded gn] sp[unfolded N_def]] d unfolding m by simp
  have cn: "int C = n_cp" using pos by (simp add: C_def)
  have blk: "rows ! i div int N = int (i div (N * C)) \<and> cols ! i div n_cp = int (i div (N * C))
           \<and> i div (N * C) < B"
    if "i < length rows" for i
  proof -
    define b where "b = i div (N * C)"
    define k where "k = (i mod (N * C)) div C"
    define j where "j = i mod C"
    from that lr flat_index_split[of i B N C]
    have s: "b < B" "k < N" "j < C" "i = b * (N * C) + (k * C + j)"
      unfolding b_def k_def j_def by simp_all
    from el[OF s(1-3)] s(4)
    have "rows ! i = int (b * N + k)" "cols ! i = int (b * C + j)" by simp_all
    then have "rows ! i div int N = int b" "cols ! i div int C = int b"
      using int_div_block[OF s(2)] int_div_block[OF s(3)] by simp_all
    then show ?thesis using s(1) cn unfolding b_def by simp
  qed
  have p1: "\<forall>i < length rows. rows ! i div int N = cols ! i div n_cp
             \<and> 0 \<le> cols ! i div n_cp \<and> cols ! i div n_cp < vec_size opts"
  proof (intro allI impI)
    fix i assume "i < length rows"
    from blk[OF this] show "rows ! i div int N = cols ! i div n_cp
             \<and> 0 \<le> cols ! i div n_cp \<and> cols ! i div n_cp < vec_size opts"
      using pos by (auto simp: B_def)
  qed
  have p2: "\<forall>i < length rows. \<forall>i' < length rows.
               rows ! i div int N \<noteq> rows ! i' div int N
               \<longrightarrow> rows ! i \<noteq> rows ! i' \<and> cols ! i \<noteq> cols ! i'"
  proof (intro allI impI)
    fix i i' assume a: "i < length rows" "i' < length rows"
      "rows ! i div int N \<noteq> rows ! i' div int N"
    from blk[OF a(1)] blk[OF a(2)] a(3)
    have "cols ! i div n_cp \<noteq> cols ! i' div n_cp" by simp
    then have "cols ! i \<noteq> cols ! i'" by auto
    moreover from a(3) have "rows ! i \<noteq> rows ! i'" by auto
    ultimately show "rows ! i \<noteq> rows ! i' \<and> cols ! i \<noteq> cols ! i'" by simp
  qed
  show ?thesis
    apply (rule exI[of _ rows], rule exI[of _ cols])
    using decl lr lc p1 p2 unfolding N_def by simp
qed

theorem batch_block_diagonal_witness:
  "\<exists>c' rows cols.
      setup_comp example_new ''spl'' example_opts example_comp = Inr c'
    \<and> declared_partials c' = [(''y'', ''ycp'', rows, cols)]
    \<and> length rows = length cols
    \<and> (\<forall>i < length rows. rows ! i div 2 = cols ! i div 3)"
proof -
  obtain c' where e: "setup_comp example_new ''spl'' example_opts example_comp = Inr c'"
    using example_setup by blast
  have p: "0 < vec_size example_opts" "0 < length (x_interp_val example_opts)" "0 < (3::int)"
    by (simp_all add: example_opts_def)
  from batch_block_diagonal[OF e example_grid p] obtain rows cols where
    1: "declared_partials c' = declared_partials example_comp @
               map (\<lambda>(y_cp_name, y_interp_name, y_cp_val, y_units).
                      (y_interp_name, y_cp_name, rows, cols)) (spline_cache example_comp)"
    and 2: "length cols = length rows"
    and 3: "\<forall>i < length rows.
               rows ! i div int (length (x_interp_val example_opts)) = cols ! i div 3
             \<and> 0 \<le> cols ! i div 3 \<and> cols ! i div 3 < vec_size example_opts"
    by blast
  from 1 have 5: "declared_partials c' = [(''y'', ''ycp'', rows, cols)]"
    by (simp add: example_comp_def add_spline_def init_def)
  from 3 have 6: "\<forall>i < length rows. rows ! i div 2 = cols ! i div 3"
    by (simp add: example_opts_def)
  from e 2 5 6 show ?thesis by auto
qed

section \<open>The control-point grid\<close>

text \<open>
  C2. The grid is resolved exactly in the configurations the specification allows (one of
  \<open>x_cp_val\<close> and \<open>num_cp\<close> set, and no \<open>x_cp_val\<close> with \<open>bsplines\<close>). In every other
  configuration the resolution, and setup with it, ends with a \<open>ValueError\<close> whose message
  contains the option names \<open>x_cp_val\<close> and \<open>num_cp\<close>.
\<close>

theorem grid_resolution:
  "(grid_config_ok opts \<longrightarrow> (\<exists>grid n_cp. resolve_grid msginfo opts = Inr (grid, n_cp)))
 \<and> (\<not> grid_config_ok opts \<longrightarrow>
       (\<exists>m. resolve_grid msginfo opts = Inl (ValueError m)
          \<and> setup_comp InterpND msginfo opts c = Inl (ValueError m)
          \<and> sublist ''x_cp_val'' m \<and> sublist ''num_cp'' m))"
proof (intro conjI impI)
  assume "grid_config_ok opts"
  then show "\<exists>grid n_cp. resolve_grid msginfo opts = Inr (grid, n_cp)"
    by (auto simp: grid_config_ok_def resolve_grid_def split: option.splits)
next
  assume bad: "\<not> grid_config_ok opts"
  then consider
    (bs) xs where "x_cp_val opts = Some xs" "interp_method opts = ''bsplines''"
  | (both) xs n where "x_cp_val opts = Some xs" "interp_method opts \<noteq> ''bsplines''"
      "num_cp opts = Some n"
  | (neither) "x_cp_val opts = None" "num_cp opts = None"
    unfolding grid_config_ok_def by (cases "x_cp_val opts"; cases "num_cp opts") auto
  then have "\<exists>m. resolve_grid msginfo opts = Inl (ValueError m)
          \<and> sublist ''x_cp_val'' m \<and> sublist ''num_cp'' m"
  proof cases
    case bs
    then have "resolve_grid msginfo opts = Inl (ValueError (msg_bsplines msginfo))"
      by (simp add: resolve_grid_def)
    then show ?thesis using names_bsplines by blast
  next
    case both
    then have "resolve_grid msginfo opts = Inl (ValueError (msg_both msginfo))"
      by (simp add: resolve_grid_def)
    then show ?thesis using names_both by blast
  next
    case neither
    then have "resolve_grid msginfo opts = Inl (ValueError (msg_neither msginfo))"
      by (simp add: resolve_grid_def)
    then show ?thesis using names_neither by blast
  qed
  then show "\<exists>m. resolve_grid msginfo opts = Inl (ValueError m)
          \<and> setup_comp InterpND msginfo opts c = Inl (ValueError m)
          \<and> sublist ''x_cp_val'' m \<and> sublist ''num_cp'' m"
    using setup_comp_grid_error by blast
qed

theorem grid_resolution_witness:
  "(\<exists>grid n_cp. resolve_grid ''spl'' example_opts = Inr (grid, n_cp))
 \<and> (\<exists>m. setup_comp example_new ''spl'' bad_opts example_comp = Inl (ValueError m)
        \<and> sublist ''x_cp_val'' m \<and> sublist ''num_cp'' m)"
proof -
  have 1: "grid_config_ok example_opts"
    by (simp add: grid_config_ok_def example_opts_def)
  have 2: "\<not> grid_config_ok bad_opts"
    by (simp add: grid_config_ok_def example_opts_def bad_opts_def)
  from 1 grid_resolution[of example_opts "''spl''" example_new example_comp]
  have a: "\<exists>grid n_cp. resolve_grid ''spl'' example_opts = Inr (grid, n_cp)" by blast
  from 2 grid_resolution[of bad_opts "''spl''" example_new example_comp]
  have b: "\<exists>m. setup_comp example_new ''spl'' bad_opts example_comp = Inl (ValueError m)
        \<and> sublist ''x_cp_val'' m \<and> sublist ''num_cp'' m" by blast
  from a b show ?thesis by blast
qed

text \<open>
  C7. With explicit positions (no count, not \<open>bsplines\<close>) the grid is the positions and
  \<open>n_cp\<close> their number; with a count only, the grid is \<open>0, 1, ..., count - 1\<close> and \<open>n_cp\<close>
  the count. Nothing but the options enters, and a setup that succeeds stores this
  \<open>n_cp\<close> in \<open>_n_cp\<close>.
\<close>

theorem resolved_grid:
  "(x_cp_val opts = Some xs \<and> interp_method opts \<noteq> ''bsplines'' \<and> num_cp opts = None
      \<longrightarrow> resolve_grid msginfo opts = Inr (xs, int (length xs)))
 \<and> (x_cp_val opts = None \<and> num_cp opts = Some n
      \<longrightarrow> resolve_grid msginfo opts = Inr (map real_of_int [0..n - 1], n))
 \<and> (setup_comp InterpND msginfo opts c = Inr c'
      \<longrightarrow> (\<exists>grid n_cp. resolve_grid msginfo opts = Inr (grid, n_cp)
                       \<and> self_n_cp c' = Some n_cp))"
proof (intro conjI impI)
  assume "x_cp_val opts = Some xs \<and> interp_method opts \<noteq> ''bsplines'' \<and> num_cp opts = None"
  then show "resolve_grid msginfo opts = Inr (xs, int (length xs))"
    by (simp add: resolve_grid_def)
next
  assume "x_cp_val opts = None \<and> num_cp opts = Some n"
  then show "resolve_grid msginfo opts = Inr (map real_of_int [0..n - 1], n)"
    by (simp add: resolve_grid_def arange_upto)
next
  assume "setup_comp InterpND msginfo opts c = Inr c'"
  then obtain grid n_cp c1 where
    1: "resolve_grid msginfo opts = Inr (grid, n_cp)" and
    2: "setup_loop InterpND opts grid n_cp (spline_cache c) (c\<lparr>self_n_cp := Some n_cp\<rparr>) = Inr c1" and
    3: "c' = (if startswith (interp_method opts) ''scipy''
           then c1\<lparr>check_partial_options := check_partial_options c1 @ [(''*'', ''fd'')]\<rparr>
           else c1)"
    by (rule setup_comp_cases)
  from setup_loop_keeps[OF 2] 3 have "self_n_cp c' = Some n_cp" by simp
  with 1 show "\<exists>grid n_cp. resolve_grid msginfo opts = Inr (grid, n_cp) \<and> self_n_cp c' = Some n_cp"
    by blast
qed

theorem resolved_grid_witness:
  "resolve_grid ''spl'' explicit_opts = Inr ([1, 2, 4, 8], 4)
 \<and> resolve_grid ''spl'' example_opts = Inr ([0, 1, 2], 3)"
proof -
  have 1: "x_cp_val explicit_opts = Some [1, 2, 4, 8] \<and> interp_method explicit_opts \<noteq> ''bsplines''
            \<and> num_cp explicit_opts = None"
    by (simp add: explicit_opts_def example_opts_def)
  have 2: "x_cp_val example_opts = None \<and> num_cp example_opts = Some 3"
    by (simp add: example_opts_def)
  have 3: "map real_of_int [0..3 - 1] = [0, 1, 2]"
    by (simp add: upto_rec1)
  from 1 resolved_grid[of explicit_opts "[1, 2, 4, 8]" "''spl''"]
  have a: "resolve_grid ''spl'' explicit_opts = Inr ([1, 2, 4, 8], 4)" by simp
  from 2 3 resolved_grid[of example_opts _ "''spl''" 3]
  have b: "resolve_grid ''spl'' example_opts = Inr ([0, 1, 2], 3)" by simp
  from a b show ?thesis by simp
qed

section \<open>The finite-difference override\<close>

text \<open>
  C10. No method the options declaration accepts starts with \<open>scipy\<close>, so a setup with an
  accepted method never calls \<open>set_check_partial_options\<close>: the recorded calls are those
  from before.
\<close>

theorem no_fd_override:
  "valid_method (interp_method opts) \<longrightarrow>
     \<not> startswith (interp_method opts) ''scipy''
   \<and> (setup_comp InterpND msginfo opts c = Inr c'
        \<longrightarrow> check_partial_options c' = check_partial_options c)"
proof (intro impI conjI)
  assume v: "valid_method (interp_method opts)"
  then show n: "\<not> startswith (interp_method opts) ''scipy''" by (rule not_scipy)
  assume "setup_comp InterpND msginfo opts c = Inr c'"
  then obtain grid n_cp c1 where
    2: "setup_loop InterpND opts grid n_cp (spline_cache c) (c\<lparr>self_n_cp := Some n_cp\<rparr>) = Inr c1" and
    3: "c' = (if startswith (interp_method opts) ''scipy''
           then c1\<lparr>check_partial_options := check_partial_options c1 @ [(''*'', ''fd'')]\<rparr>
           else c1)"
    by (rule setup_comp_cases)
  from setup_loop_keeps[OF 2] 3 n show "check_partial_options c' = check_partial_options c"
    by simp
qed

theorem no_fd_override_witness:
  "\<exists>c'. setup_comp example_new ''spl'' example_opts example_comp = Inr c'
      \<and> check_partial_options c' = []"
proof -
  obtain c' where e: "setup_comp example_new ''spl'' example_opts example_comp = Inr c'"
    using example_setup by blast
  have v: "valid_method (interp_method example_opts)"
    by (simp add: valid_method_def ALL_METHODS_def example_opts_def)
  from v e no_fd_override[of example_opts example_new "''spl''" example_comp c']
  have "check_partial_options c' = check_partial_options example_comp" by blast
  then have "check_partial_options c' = []"
    by (simp add: example_comp_def add_spline_def init_def)
  with e show ?thesis by blast
qed

section \<open>The default control values\<close>

text \<open>
  C8, as stated, fails: with \<open>vec_size = 2\<close> and three control points, a default of shape
  \<open>(3,)\<close> makes setup raise, because line 130 reshapes (it does not broadcast).
\<close>

theorem default_cp_counterexample:
  "setup_comp example_new ''spl'' example_opts flat_cp_comp = Inl reshape_error"
  unfolding setup_comp_def example_grid
  by (simp add: bind_err_def flat_cp_comp_def add_spline_def init_def setup_spline_def
      example_opts_def np_ones_def np_full_def negative_dims_def
      default_cp_val_def np_reshape2_def)

text \<open>
  C8, amended. For positive \<open>vec_size\<close> (\<open>B\<close>) and \<open>n_cp\<close>: an absent default becomes the
  all-ones array of shape \<open>(B, n_cp)\<close>; a default of fewer than two axes is accepted
  exactly when its size is \<open>B * n_cp\<close>, and is then reshaped, in order, to \<open>(B, n_cp)\<close>
  (otherwise setup raises a \<open>ValueError\<close>); so a default of shape \<open>(n_cp,)\<close> is accepted
  exactly when \<open>B = 1\<close>. The normalised array is the value of the registered input.
\<close>

theorem default_cp_values:
  assumes "0 < vs" "0 < n_cp"
  shows "default_cp_val vs n_cp None
           = Inr (NDArray [nat vs, nat n_cp] (replicate (nat vs * nat n_cp) 1))
       \<and> (length (shape a) < 2 \<longrightarrow>
            default_cp_val vs n_cp (Some (PyArray a))
              = (if prod_list (shape a) = nat vs * nat n_cp
                 then Inr (NDArray [nat vs, nat n_cp] (data a)) else Inl reshape_error))
       \<and> ((\<exists>v. default_cp_val vs n_cp (Some (PyArray (NDArray [nat n_cp] d))) = Inr v)
            \<longleftrightarrow> vs = 1)
       \<and> (vs = vec_size opts \<and>
            setup_spline InterpND opts grid n_cp (y_cp_name, y_interp_name, y_cp_val, y_units) c
              = Inr c'
          \<longrightarrow> (\<exists>val. default_cp_val vs n_cp y_cp_val = Inr val
                  \<and> added_inputs c' = added_inputs c @ [(y_cp_name, val)]))"
proof (intro conjI impI)
  have nn: "0 \<le> vs" "0 \<le> n_cp" using assms by simp_all
  show "default_cp_val vs n_cp None
           = Inr (NDArray [nat vs, nat n_cp] (replicate (nat vs * nat n_cp) 1))"
    using nn by (simp add: default_cp_val_def np_ones_2)
  show "default_cp_val vs n_cp (Some (PyArray a))
              = (if prod_list (shape a) = nat vs * nat n_cp
                 then Inr (NDArray [nat vs, nat n_cp] (data a)) else Inl reshape_error)"
    if "length (shape a) < 2"
    using that nn by (simp add: default_cp_val_def np_reshape2_nonneg)
  have "default_cp_val vs n_cp (Some (PyArray (NDArray [nat n_cp] d)))
          = (if nat n_cp = nat vs * nat n_cp
             then Inr (NDArray [nat vs, nat n_cp] d) else Inl reshape_error)"
    using nn by (simp add: default_cp_val_def np_reshape2_nonneg)
  moreover have "nat n_cp = nat vs * nat n_cp \<longleftrightarrow> vs = 1"
    using assms by (auto simp: nat_eq_iff)
  ultimately show "(\<exists>v. default_cp_val vs n_cp (Some (PyArray (NDArray [nat n_cp] d))) = Inr v)
            \<longleftrightarrow> vs = 1" by simp
  show "\<exists>val. default_cp_val vs n_cp y_cp_val = Inr val
                  \<and> added_inputs c' = added_inputs c @ [(y_cp_name, val)]"
    if "vs = vec_size opts \<and>
            setup_spline InterpND opts grid n_cp (y_cp_name, y_interp_name, y_cp_val, y_units) c
              = Inr c'"
    using that setup_spline_inputs by blast
qed

theorem default_cp_values_witness:
  "default_cp_val 2 3 None = Inr (NDArray [2, 3] [1, 1, 1, 1, 1, 1])
 \<and> default_cp_val 1 3 (Some (PyArray (NDArray [3] [1, 2, 4]))) = Inr (NDArray [1, 3] [1, 2, 4])
 \<and> default_cp_val 2 3 (Some (PyArray (NDArray [6] [1, 2, 4, 5, 6, 7])))
      = Inr (NDArray [2, 3] [1, 2, 4, 5, 6, 7])
 \<and> \<not> (\<exists>v. default_cp_val 2 3 (Some (PyArray (NDArray [3] [1, 2, 4]))) = Inr v)"
proof -
  have r: "replicate (nat 2 * nat 3) (1::real) = [1, 1, 1, 1, 1, 1]"
    by (simp add: numeral_eq_Suc)
  have a: "default_cp_val 2 3 None = Inr (NDArray [2, 3] [1, 1, 1, 1, 1, 1])"
    using default_cp_values[of 2 3] r by simp
  have b: "default_cp_val 1 3 (Some (PyArray (NDArray [3] [1, 2, 4]))) = Inr (NDArray [1, 3] [1, 2, 4])"
    using default_cp_values[of 1 3 "NDArray [3] [1, 2, 4]"] by simp
  have c: "default_cp_val 2 3 (Some (PyArray (NDArray [6] [1, 2, 4, 5, 6, 7])))
      = Inr (NDArray [2, 3] [1, 2, 4, 5, 6, 7])"
    using default_cp_values[of 2 3 "NDArray [6] [1, 2, 4, 5, 6, 7]"] by simp
  have d: "\<not> (\<exists>v. default_cp_val 2 3 (Some (PyArray (NDArray [3] [1, 2, 4]))) = Inr v)"
    using default_cp_values[of 2 3 _ "[1, 2, 4]"] by simp
  from a b c d show ?thesis by blast
qed

section \<open>Errors of the evaluation\<close>

text \<open>
  C6. When \<open>compute\<close> reaches a spline (the splines before it were evaluated without an
  exception) and the engine's \<open>evaluate_spline\<close> raises a \<open>ValueError\<close> for it, the call ends
  there with a \<open>ValueError\<close> whose message contains the output's name and the engine's
  message. \<open>evaluate_spline\<close> has been called once for each spline up to and including
  the failing one and for none after it, and nothing is written to the failing output.
\<close>

theorem evaluation_error:
  assumes split: "interps c = pre @ (out_name, engine) # post"
    and before: "compute_loop evaluate_spline msginfo opts (interp_to_cp c) inputs pre
                   \<lparr>engines = interps c, outputs = outs, evaluated = []\<rparr> = (r1, None)"
    and cp: "map_of (interp_to_cp c) out_name = Some cp_name"
    and vals: "inputs cp_name = Some values"
    and fails: "evaluate_spline
                  (engine\<lparr>compute_d_dvalues := True, compute_d_dx := False,
                          x_interp := x_interp_val opts\<rparr>) values
                = (Inl (ValueError err), engine')"
  shows "\<exists>r. compute evaluate_spline msginfo opts c inputs outs
               = (r, Some (ValueError (msg_interp msginfo out_name err)))
           \<and> sublist out_name (msg_interp msginfo out_name err)
           \<and> sublist err (msg_interp msginfo out_name err)
           \<and> evaluated r = map fst pre @ [out_name]
           \<and> outputs r = outputs r1
           \<and> (out_name \<notin> fst ` set pre \<longrightarrow> outputs r out_name = outs out_name)"
proof -
  define r where "r = r1\<lparr>engines := AList.update out_name engine' (engines r1),
                         evaluated := evaluated r1 @ [out_name]\<rparr>"
  have step: "compute_loop evaluate_spline msginfo opts (interp_to_cp c) inputs
                ((out_name, engine) # post) r1
              = (r, Some (ValueError (msg_interp msginfo out_name err)))"
    using cp vals fails by (simp add: r_def Let_def)
  have "compute evaluate_spline msginfo opts c inputs outs
          = (r, Some (ValueError (msg_interp msginfo out_name err)))"
    unfolding compute_def split compute_loop_append before[unfolded split] using step by simp
  moreover from compute_loop_evaluated[OF before]
  have "evaluated r = map fst pre @ [out_name]" "outputs r = outputs r1"
    "out_name \<notin> fst ` set pre \<longrightarrow> outputs r out_name = outs out_name"
    by (simp_all add: r_def)
  ultimately show ?thesis using msg_interp_names by blast
qed

theorem evaluation_error_witness:
  "\<exists>r. compute failing_eval ''spl'' example_opts ready_comp example_inputs Map.empty
        = (r, Some (ValueError (msg_interp ''spl'' ''y'' ''One of the requested xi is out of bounds'')))
      \<and> sublist ''y'' (msg_interp ''spl'' ''y'' ''One of the requested xi is out of bounds'')
      \<and> evaluated r = [''y''] \<and> outputs r ''y'' = None"
proof -
  have 1: "interps ready_comp = [] @ (''y'', example_engine) # []"
    by (simp add: ready_comp_def init_def)
  have 2: "compute_loop failing_eval ''spl'' example_opts (interp_to_cp ready_comp)
             example_inputs []
             \<lparr>engines = interps ready_comp, outputs = Map.empty, evaluated = []\<rparr>
           = (\<lparr>engines = interps ready_comp, outputs = Map.empty, evaluated = []\<rparr>, None)"
    by simp
  have 3: "map_of (interp_to_cp ready_comp) ''y'' = Some ''ycp''"
    by (simp add: ready_comp_def init_def)
  have 4: "example_inputs ''ycp'' = Some (NDArray [2, 3] [1, 2, 4, 5, 6, 7])"
    by (simp add: example_inputs_def)
  have 5: "failing_eval (example_engine\<lparr>compute_d_dvalues := True, compute_d_dx := False,
                          x_interp := x_interp_val example_opts\<rparr>)
             (NDArray [2, 3] [1, 2, 4, 5, 6, 7])
           = (Inl (ValueError ''One of the requested xi is out of bounds''),
              example_engine\<lparr>compute_d_dvalues := True, compute_d_dx := False,
                          x_interp := x_interp_val example_opts, d_dvalues := None\<rparr>)"
    by (simp add: failing_eval_def)
  from evaluation_error[OF 1 2 3 4 5] show ?thesis
    apply (elim exE conjE)
    subgoal for r
      apply (rule exI[of _ r])
      apply (simp only: list.map append_Nil run.simps simp_thms)
      done
    done
qed

section \<open>The derivative arrays\<close>

text \<open>
  C4. When \<open>compute_partials\<close> succeeds, the value it writes for a spline is the flattening
  of the array \<open>dy_ddata\<close> of shape \<open>(B, n_interp, n_cp)\<close> assembled for that spline, whatever
  the source of the derivative; reshaping the flat array to \<open>(B, n_interp, n_cp)\<close> gives
  \<open>dy_ddata\<close> back; and element \<open>i\<close> of the flat array is the element of \<open>dy_ddata\<close> at batch
  \<open>rows[i] div n_interp\<close>, output \<open>rows[i] mod n_interp\<close> and control point
  \<open>cols[i] mod n_cp\<close>, for the \<open>rows\<close> and \<open>cols\<close> that setup computes.
\<close>

theorem flattening_order:
  assumes ok: "compute_partials training_gradients opts c partials = Inr partials'"
    and eng: "(out_name, engine) \<in> set (interps c)"
    and keys: "distinct (map fst (interps c))"
    and cp: "map_of (interp_to_cp c) out_name = Some cp_name"
  shows "\<exists>n_cp dy_ddata rows cols.
           self_n_cp c = Some n_cp
         \<and> assemble training_gradients opts n_cp engine = Inr dy_ddata
         \<and> shape dy_ddata = [nat (vec_size opts), length (x_interp_val opts), nat n_cp]
         \<and> partials' (out_name, cp_name) = Some (flatten dy_ddata)
         \<and> unflatten (flatten dy_ddata) [nat (vec_size opts), length (x_interp_val opts), nat n_cp]
             = Inr dy_ddata
         \<and> sparsity (vec_size opts) (length (x_interp_val opts)) n_cp = Inr (rows, cols)
         \<and> length (flatten dy_ddata) = length rows
         \<and> length cols = length rows
         \<and> (\<forall>i < length rows.
               flatten dy_ddata ! i
                 = item dy_ddata [nat (rows ! i div int (length (x_interp_val opts))),
                                  nat (rows ! i mod int (length (x_interp_val opts))),
                                  nat (cols ! i mod n_cp)])"
proof -
  define B where "B = nat (vec_size opts)"
  define N where "N = length (x_interp_val opts)"
  from compute_partials_loop_entry[OF ok[unfolded compute_partials_def] eng keys cp]
  obtain n_cp dy where
    n: "self_n_cp c = Some n_cp" and
    a: "assemble training_gradients opts n_cp engine = Inr dy" and
    p: "partials' (out_name, cp_name) = Some (flatten dy)"
    by blast
  define C where "C = nat n_cp"
  from assemble_shape[OF a] have
    nn: "0 \<le> vec_size opts" "0 \<le> n_cp" and
    sh: "shape dy = [B, N, C]" and
    ln: "length (data dy) = B * (N * C)"
    unfolding B_def N_def C_def by simp_all
  have cn: "int C = n_cp" using nn by (simp add: C_def)
  from sparsity_entries[OF nn, of N] obtain rows cols where
    sp: "sparsity (vec_size opts) N n_cp = Inr (rows, cols)" and
    lr: "length rows = B * (N * C)" and lc: "length cols = B * (N * C)" and
    el: "\<And>b k j. b < B \<Longrightarrow> k < N \<Longrightarrow> j < C \<Longrightarrow>
           rows ! (b * (N * C) + (k * C + j)) = int (b * N + k)
         \<and> cols ! (b * (N * C) + (k * C + j)) = int (b * C + j)"
    unfolding B_def C_def by blast
  have un: "unflatten (flatten dy) [B, N, C] = Inr dy"
    using sh ln by (cases dy) (simp add: unflatten_def flatten_def)
  have it: "flatten dy ! i
              = item dy [nat (rows ! i div int N), nat (rows ! i mod int N), nat (cols ! i mod n_cp)]"
    if "i < length rows" for i
  proof -
    define b where "b = i div (N * C)"
    define k where "k = (i mod (N * C)) div C"
    define j where "j = i mod C"
    from that lr flat_index_split[of i B N C]
    have s: "b < B" "k < N" "j < C" "i = b * (N * C) + (k * C + j)"
      unfolding b_def k_def j_def by simp_all
    from el[OF s(1-3)] s(4)
    have rc: "rows ! i = int (b * N + k)" "cols ! i = int (b * C + j)" by simp_all
    have "rows ! i div int N = int b" "rows ! i mod int N = int k" "cols ! i mod int C = int j"
      unfolding rc
      using int_div_block[OF s(2)] int_mod_block[OF s(2)] int_mod_block[OF s(3)] by simp_all
    then have "item dy [nat (rows ! i div int N), nat (rows ! i mod int N), nat (cols ! i mod n_cp)]
                 = item dy [b, k, j]"
      using cn by simp
    also have "\<dots> = data dy ! (b * (N * C) + (k * C + j))"
      by (simp add: item_def sh)
    finally show ?thesis using s(4) by (simp add: flatten_def)
  qed
  show ?thesis
    apply (rule exI[of _ n_cp], rule exI[of _ dy], rule exI[of _ rows], rule exI[of _ cols])
    using n a sh p un sp lr lc ln it unfolding B_def N_def C_def
    by (simp add: flatten_def)
qed

theorem flattening_order_witness:
  "\<exists>partials' dy_ddata rows cols.
       compute_partials example_grad example_opts ready_comp Map.empty = Inr partials'
     \<and> partials' (''y'', ''ycp'') = Some (flatten dy_ddata)
     \<and> unflatten (flatten dy_ddata) [2, 2, 3] = Inr dy_ddata
     \<and> sparsity 2 2 3 = Inr (rows, cols)
     \<and> (\<forall>i < length rows.
           flatten dy_ddata ! i
             = item dy_ddata [nat (rows ! i div 2), nat (rows ! i mod 2), nat (cols ! i mod 3)])"
proof -
  have 1: "(''y'', example_engine) \<in> set (interps ready_comp)"
    by (simp add: ready_comp_def init_def)
  have 2: "distinct (map fst (interps ready_comp))"
    by (simp add: ready_comp_def init_def)
  have 3: "map_of (interp_to_cp ready_comp) ''y'' = Some ''ycp''"
    by (simp add: ready_comp_def init_def)
  have 4: "self_n_cp ready_comp = Some 3"
    by (simp add: ready_comp_def init_def)
  have 5: "vec_size example_opts = 2" "length (x_interp_val example_opts) = 2"
    by (simp_all add: example_opts_def)
  from flattening_order[OF example_partials 1 2 3] show ?thesis
    unfolding 4 5
    apply (elim exE conjE)
    subgoal for n_cp dy rows cols
      apply (rule exI[of _ "[(''y'', ''ycp'') \<mapsto> [1/2, 1/2, 0, -1/2, 3/2, 0, 1/2, 1/2, 0, -1/2, 3/2, 0]]"])
      apply (rule exI[of _ dy], rule exI[of _ rows], rule exI[of _ cols])
      apply (simp add: example_partials)
      done
    done
qed

text \<open>
  C5. When the engine has no batched derivative, or its cached derivative has a leading
  dimension other than \<open>vec_size\<close>, an assembled array consists of one block of
  \<open>n_interp * n_cp\<close> elements repeated \<open>B\<close> times: all batch blocks are equal.
\<close>

theorem broadcast_blocks:
  assumes ok: "assemble training_gradients opts n_cp engine = Inr dy_ddata"
    and inv: "d_dvalues engine = None
            \<or> (\<exists>d s0 ss. d_dvalues engine = Some d \<and> shape (deriv_array d) = s0 # ss
                          \<and> int s0 \<noteq> vec_size opts)"
  shows "shape dy_ddata = [nat (vec_size opts), length (x_interp_val opts), nat n_cp]
       \<and> (\<exists>block. length block = length (x_interp_val opts) * nat n_cp
                 \<and> data dy_ddata = concat (replicate (nat (vec_size opts)) block))
       \<and> (\<forall>b < nat (vec_size opts). \<forall>k < length (x_interp_val opts). \<forall>j < nat n_cp.
             item dy_ddata [b, k, j] = item dy_ddata [0, k, j])"
proof -
  define B where "B = nat (vec_size opts)"
  define N where "N = length (x_interp_val opts)"
  define C where "C = nat n_cp"
  from assemble_shape[OF ok] have sh: "shape dy_ddata = [B, N, C]"
    unfolding B_def N_def C_def by simp
  from inv ok obtain ss' v where "data dy_ddata = broadcast_data (Suc 0 # ss') v [B, N, C]"
    unfolding B_def N_def C_def using assemble_None assemble_Some by blast
  then have rep: "data dy_ddata = concat (replicate B (broadcast_data ss' v [N, C]))"
    by (simp add: broadcast_leading_one)
  define block where "block = broadcast_data ss' v [N, C]"
  have lb: "length block = N * C" by (simp add: block_def length_broadcast_data)
  have el: "item dy_ddata [b, k, j] = item dy_ddata [0, k, j]"
    if "b < B" "k < N" "j < C" for b k j
  proof -
    have 0: "0 < B" using that by simp
    have "item dy_ddata [b, k, j] = concat (replicate B block) ! (b * (N * C) + (k * C + j))"
      by (simp add: item_def sh rep block_def)
    also have "\<dots> = block ! (k * C + j)" using that lb by (rule nth_tiled)
    also have "\<dots> = concat (replicate B block) ! (0 * (N * C) + (k * C + j))"
      using nth_tiled[OF 0 that(2,3) lb] by simp
    also have "\<dots> = item dy_ddata [0, k, j]"
      by (simp add: item_def sh rep block_def)
    finally show ?thesis .
  qed
  from sh lb rep el show ?thesis
    unfolding B_def N_def C_def block_def by blast
qed

theorem broadcast_blocks_witness:
  "item (NDArray [2, 2, 3] [1/2, 1/2, 0, -1/2, 3/2, 0, 1/2, 1/2, 0, -1/2, 3/2, 0]) [1, 1, 0]
     = item (NDArray [2, 2, 3] [1/2, 1/2, 0, -1/2, 3/2, 0, 1/2, 1/2, 0, -1/2, 3/2, 0]) [0, 1, 0]
 \<and> item (NDArray [2, 3, 3] [1, 0, 0, 1, 1, 0, 0, 1, 1, 1, 0, 0, 1, 1, 0, 0, 1, 1]) [1, 2, 1]
     = item (NDArray [2, 3, 3] [1, 0, 0, 1, 1, 0, 0, 1, 1, 1, 0, 0, 1, 1, 0, 0, 1, 1]) [0, 2, 1]"
proof -
  have 1: "d_dvalues example_engine = None
            \<or> (\<exists>d s0 ss. d_dvalues example_engine = Some d \<and> shape (deriv_array d) = s0 # ss
                          \<and> int s0 \<noteq> vec_size example_opts)"
    by (simp add: example_engine_def)
  have 2: "d_dvalues sparse_engine = None
            \<or> (\<exists>d s0 ss. d_dvalues sparse_engine = Some d \<and> shape (deriv_array d) = s0 # ss
                          \<and> int s0 \<noteq> vec_size three_opts)"
    by (simp add: sparse_engine_def three_opts_def example_opts_def)
  have a: "\<forall>b < nat (vec_size example_opts). \<forall>k < length (x_interp_val example_opts). \<forall>j < nat 3.
             item (NDArray [2, 2, 3] [1/2, 1/2, 0, -1/2, 3/2, 0, 1/2, 1/2, 0, -1/2, 3/2, 0]) [b, k, j]
           = item (NDArray [2, 2, 3] [1/2, 1/2, 0, -1/2, 3/2, 0, 1/2, 1/2, 0, -1/2, 3/2, 0]) [0, k, j]"
    using broadcast_blocks[OF example_assemble 1] by blast
  have b: "\<forall>b < nat (vec_size three_opts). \<forall>k < length (x_interp_val three_opts). \<forall>j < nat 3.
             item (NDArray [2, 3, 3] [1, 0, 0, 1, 1, 0, 0, 1, 1, 1, 0, 0, 1, 1, 0, 0, 1, 1]) [b, k, j]
           = item (NDArray [2, 3, 3] [1, 0, 0, 1, 1, 0, 0, 1, 1, 1, 0, 0, 1, 1, 0, 0, 1, 1]) [0, k, j]"
    using broadcast_blocks[OF sparse_assemble 2] by blast
  from a[rule_format, of 1 1 0] b[rule_format, of 1 2 1] show ?thesis
    by (simp add: example_opts_def three_opts_def)
qed

text \<open>
  C9, as stated, fails: a dense derivative of shape \<open>(2, 1, 3)\<close> where \<open>(2, 2, 3)\<close> is expected
  is accepted without an error, its single row serving both interpolated points.
\<close>

theorem shape_mismatch_counterexample:
  "compute_partials example_grad example_opts coerced_comp Map.empty
     = Inr [(''y'', ''ycp'') \<mapsto> [1, 2, 3, 1, 2, 3, 4, 5, 6, 4, 5, 6]]"
proof -
  have "assemble example_grad example_opts 3 coerced_engine
          = Inr (NDArray [2, 2, 3] [1, 2, 3, 1, 2, 3, 4, 5, 6, 4, 5, 6])"
    by code_simp
  then show ?thesis
    by (simp add: compute_partials_def coerced_comp_def ready_comp_def init_def bind_err_def
        flatten_def)
qed

text \<open>
  C9, amended. The component has no shape check of its own; in all three sources of the
  derivative numpy's broadcasting decides. A dense derivative of shape \<open>(B, n, m)\<close>, a
  sparse derivative of shape \<open>(p, q)\<close> whose leading dimension is not \<open>vec_size\<close>, and
  queried gradients of length \<open>g k\<close> are accepted when every axis has the expected size
  (\<open>n_interp\<close> for \<open>n\<close> and \<open>p\<close>, \<open>n_cp\<close> for \<open>m\<close>, \<open>q\<close> and \<open>g k\<close>) or size one, and an axis
  of size one is repeated along its dimension without an error. Otherwise the assembly
  ends with the \<open>ValueError\<close> of numpy's failed broadcast, which does not depend on the
  spline's name, and whenever the assembly of a spline ends with an exception, so does
  the call of \<open>compute_partials\<close>.
\<close>

theorem shape_mismatch:
  assumes nn: "0 \<le> n_cp"
  shows
   "(d_dvalues engine = Some (Dense (NDArray [lead, n, m] d)) \<and> int lead = vec_size opts \<longrightarrow>
       (if (n = length (x_interp_val opts) \<or> n = 1) \<and> (m = nat n_cp \<or> m = 1)
        then \<exists>dy_ddata. assemble training_gradients opts n_cp engine = Inr dy_ddata
              \<and> shape dy_ddata = [nat (vec_size opts), length (x_interp_val opts), nat n_cp]
              \<and> (\<forall>b < nat (vec_size opts). \<forall>k < length (x_interp_val opts). \<forall>j < nat n_cp.
                    item dy_ddata [b, k, j]
                      = item (NDArray [lead, n, m] d)
                          [b, if n = 1 then 0 else k, if m = 1 then 0 else j])
        else assemble training_gradients opts n_cp engine
               = Inl (ValueError ''could not broadcast input array'')))
  \<and> (d_dvalues engine = Some (Sparse (NDArray [p, q] d)) \<and> int p \<noteq> vec_size opts
        \<and> 0 \<le> vec_size opts \<longrightarrow>
       (if (p = length (x_interp_val opts) \<or> p = 1) \<and> (q = nat n_cp \<or> q = 1)
        then \<exists>dy_ddata. assemble training_gradients opts n_cp engine = Inr dy_ddata
              \<and> shape dy_ddata = [nat (vec_size opts), length (x_interp_val opts), nat n_cp]
              \<and> (\<forall>b < nat (vec_size opts). \<forall>k < length (x_interp_val opts). \<forall>j < nat n_cp.
                    item dy_ddata [b, k, j]
                      = item (NDArray [p, q] d)
                          [if p = 1 then 0 else k, if q = 1 then 0 else j])
        else assemble training_gradients opts n_cp engine
               = Inl (ValueError ''operands could not be broadcast together with remapped shapes'')))
  \<and> (d_dvalues engine = None \<and> 0 \<le> vec_size opts
        \<and> (\<forall>k < length (x_interp_val opts).
              training_gradients engine [x_interp_val opts ! k] = Inr (NDArray [g k] (v k))) \<longrightarrow>
       (if \<forall>k < length (x_interp_val opts). g k = nat n_cp \<or> g k = 1
        then \<exists>dy_ddata. assemble training_gradients opts n_cp engine = Inr dy_ddata
              \<and> shape dy_ddata = [nat (vec_size opts), length (x_interp_val opts), nat n_cp]
              \<and> (\<forall>b < nat (vec_size opts). \<forall>k < length (x_interp_val opts). \<forall>j < nat n_cp.
                    item dy_ddata [b, k, j]
                      = item (NDArray [g k] (v k)) [if g k = 1 then 0 else j])
        else assemble training_gradients opts n_cp engine
               = Inl (ValueError ''could not broadcast input array'')))
  \<and> ((\<exists>err. assemble training_gradients opts n_cp engine = Inl err)
        \<and> (out_name, engine) \<in> set (interps c) \<and> self_n_cp c = Some n_cp \<longrightarrow>
       (\<exists>err. compute_partials training_gradients opts c partials = Inl err))"
proof (intro conjI impI)
  define B where "B = nat (vec_size opts)"
  define N where "N = length (x_interp_val opts)"
  define C where "C = nat n_cp"
  {
    assume h: "d_dvalues engine = Some (Dense (NDArray [lead, n, m] d)) \<and> int lead = vec_size opts"
    then have s0: "lead = B" by (auto simp: B_def)
    note a = assemble_Dense[OF h[THEN conjunct1] h[THEN conjunct2] nn, of training_gradients,
               folded N_def C_def, unfolded s0]
    show "if (n = length (x_interp_val opts) \<or> n = 1) \<and> (m = nat n_cp \<or> m = 1)
        then \<exists>dy_ddata. assemble training_gradients opts n_cp engine = Inr dy_ddata
              \<and> shape dy_ddata = [nat (vec_size opts), length (x_interp_val opts), nat n_cp]
              \<and> (\<forall>b < nat (vec_size opts). \<forall>k < length (x_interp_val opts). \<forall>j < nat n_cp.
                    item dy_ddata [b, k, j]
                      = item (NDArray [lead, n, m] d)
                          [b, if n = 1 then 0 else k, if m = 1 then 0 else j])
        else assemble training_gradients opts n_cp engine
               = Inl (ValueError ''could not broadcast input array'')"
    proof (cases "(n = N \<or> n = 1) \<and> (m = C \<or> m = 1)")
      case True
      then have "assemble training_gradients opts n_cp engine
                   = Inr (NDArray [B, N, C] (broadcast_data [B, n, m] d [B, N, C]))"
        using a by simp
      moreover have "\<forall>b < B. \<forall>k < N. \<forall>j < C.
          item (NDArray [B, N, C] (broadcast_data [B, n, m] d [B, N, C])) [b, k, j]
            = item (NDArray [B, n, m] d) [b, if n = 1 then 0 else k, if m = 1 then 0 else j]"
        using dense_items by blast
      ultimately show ?thesis
        using True unfolding s0 B_def N_def C_def by force
    next
      case False
      then show ?thesis using a unfolding N_def C_def by auto
    qed
  }
  {
    assume h: "d_dvalues engine = Some (Sparse (NDArray [p, q] d)) \<and> int p \<noteq> vec_size opts
        \<and> 0 \<le> vec_size opts"
    note a = assemble_Sparse2[of engine p q d opts n_cp training_gradients,
               folded B_def N_def C_def]
    show "if (p = length (x_interp_val opts) \<or> p = 1) \<and> (q = nat n_cp \<or> q = 1)
        then \<exists>dy_ddata. assemble training_gradients opts n_cp engine = Inr dy_ddata
              \<and> shape dy_ddata = [nat (vec_size opts), length (x_interp_val opts), nat n_cp]
              \<and> (\<forall>b < nat (vec_size opts). \<forall>k < length (x_interp_val opts). \<forall>j < nat n_cp.
                    item dy_ddata [b, k, j]
                      = item (NDArray [p, q] d)
                          [if p = 1 then 0 else k, if q = 1 then 0 else j])
        else assemble training_gradients opts n_cp engine
               = Inl (ValueError ''operands could not be broadcast together with remapped shapes'')"
    proof (cases "(p = N \<or> p = 1) \<and> (q = C \<or> q = 1)")
      case True
      then have "assemble training_gradients opts n_cp engine
                   = Inr (NDArray [B, N, C] (broadcast_data [1, p, q] d [B, N, C]))"
        using a h nn by simp
      moreover have "\<forall>b < B. \<forall>k < N. \<forall>j < C.
          item (NDArray [B, N, C] (broadcast_data [1, p, q] d [B, N, C])) [b, k, j]
            = item (NDArray [p, q] d) [if p = 1 then 0 else k, if q = 1 then 0 else j]"
        using sparse_items by blast
      ultimately show ?thesis
        using True unfolding B_def N_def C_def by force
    next
      case False
      then show ?thesis using a h nn unfolding N_def C_def by auto
    qed
  }
  {
    assume h: "d_dvalues engine = None \<and> 0 \<le> vec_size opts
        \<and> (\<forall>k < length (x_interp_val opts).
              training_gradients engine [x_interp_val opts ! k] = Inr (NDArray [g k] (v k)))"
    note a = assemble_queried[of engine opts n_cp training_gradients g v,
               folded B_def N_def C_def]
    show "if \<forall>k < length (x_interp_val opts). g k = nat n_cp \<or> g k = 1
        then \<exists>dy_ddata. assemble training_gradients opts n_cp engine = Inr dy_ddata
              \<and> shape dy_ddata = [nat (vec_size opts), length (x_interp_val opts), nat n_cp]
              \<and> (\<forall>b < nat (vec_size opts). \<forall>k < length (x_interp_val opts). \<forall>j < nat n_cp.
                    item dy_ddata [b, k, j]
                      = item (NDArray [g k] (v k)) [if g k = 1 then 0 else j])
        else assemble training_gradients opts n_cp engine
               = Inl (ValueError ''could not broadcast input array'')"
    proof (cases "\<forall>k < N. g k = C \<or> g k = 1")
      case True
      then have "assemble training_gradients opts n_cp engine
                   = Inr (NDArray [B, N, C]
                 (broadcast_data [1, N, C]
                    (map (\<lambda>i. v (i div C) ! (if g (i div C) = 1 then 0 else i mod C)) [0..<N * C])
                    [B, N, C]))"
        using a h nn unfolding N_def by simp
      moreover have "\<forall>b < B. \<forall>k < N. \<forall>j < C.
          item (NDArray [B, N, C]
                 (broadcast_data [1, N, C]
                    (map (\<lambda>i. v (i div C) ! (if g (i div C) = 1 then 0 else i mod C)) [0..<N * C])
                    [B, N, C])) [b, k, j]
            = item (NDArray [g k] (v k)) [if g k = 1 then 0 else j]"
        using queried_items by blast
      ultimately show ?thesis
        using True unfolding B_def N_def C_def by force
    next
      case False
      then show ?thesis using a h nn unfolding N_def C_def by auto
    qed
  }
  {
    assume "(\<exists>err. assemble training_gradients opts n_cp engine = Inl err)
        \<and> (out_name, engine) \<in> set (interps c) \<and> self_n_cp c = Some n_cp"
    then show "\<exists>err. compute_partials training_gradients opts c partials = Inl err"
      using compute_partials_aborts by blast
  }
qed

theorem shape_mismatch_witness:
  "(\<exists>dy_ddata. assemble example_grad example_opts 3 coerced_engine = Inr dy_ddata
      \<and> item dy_ddata [1, 1, 2] = 6)
 \<and> assemble example_grad example_opts 3 misshaped_engine
      = Inl (ValueError ''could not broadcast input array'')
 \<and> (\<exists>dy_ddata. assemble example_grad example_opts 3 flat_sparse_engine = Inr dy_ddata
      \<and> item dy_ddata [1, 1, 2] = 3)
 \<and> assemble example_grad example_opts 3 tall_sparse_engine
      = Inl (ValueError ''operands could not be broadcast together with remapped shapes'')
 \<and> (\<exists>dy_ddata. assemble const_grad example_opts 3 example_engine = Inr dy_ddata
      \<and> item dy_ddata [1, 1, 2] = 3/2)
 \<and> assemble short_grad example_opts 3 example_engine
      = Inl (ValueError ''could not broadcast input array'')
 \<and> (\<exists>err. compute_partials example_grad example_opts misshaped_comp Map.empty = Inl err)"
proof -
  have n3: "(0::int) \<le> 3" by simp
  have o: "length (x_interp_val example_opts) = 2" "nat (vec_size example_opts) = 2"
    "vec_size example_opts = 2" "x_interp_val example_opts = [1/2, 3/2]"
    by (simp_all add: example_opts_def)
  have a: "\<exists>dy_ddata. assemble example_grad example_opts 3 coerced_engine = Inr dy_ddata
      \<and> item dy_ddata [1, 1, 2] = 6"
  proof -
    from shape_mismatch[OF n3, where engine = coerced_engine and opts = example_opts
        and training_gradients = example_grad and lead = 2 and n = 1 and m = 3
        and d = "[1, 2, 3, 4, 5, 6]", THEN conjunct1]
    obtain dy where dy: "assemble example_grad example_opts 3 coerced_engine = Inr dy"
      "\<forall>b < 2. \<forall>k < 2. \<forall>j < 3.
          item dy [b, k, j] = item (NDArray [2, 1, 3] [1, 2, 3, 4, 5, 6]) [b, 0, j]"
      unfolding o by (auto simp: coerced_engine_def)
    from dy(2)[rule_format, of 1 1 2] have "item dy [1, 1, 2] = 6" by (simp add: item_def)
    with dy(1) show ?thesis by blast
  qed
  have b: "assemble example_grad example_opts 3 misshaped_engine
      = Inl (ValueError ''could not broadcast input array'')"
    using shape_mismatch[OF n3, where engine = misshaped_engine and opts = example_opts
        and training_gradients = example_grad and lead = 2 and n = 5 and m = 3
        and d = "replicate 30 0", THEN conjunct1]
    unfolding o by (simp add: misshaped_engine_def)
  have c: "\<exists>dy_ddata. assemble example_grad example_opts 3 flat_sparse_engine = Inr dy_ddata
      \<and> item dy_ddata [1, 1, 2] = 3"
  proof -
    from shape_mismatch[OF n3, where engine = flat_sparse_engine and opts = example_opts
        and training_gradients = example_grad and p = 1 and q = 3
        and d = "[1, 2, 3]", THEN conjunct2, THEN conjunct1]
    obtain dy where dy: "assemble example_grad example_opts 3 flat_sparse_engine = Inr dy"
      "\<forall>b < 2. \<forall>k < 2. \<forall>j < 3.
          item dy [b, k, j] = item (NDArray [1, 3] [1, 2, 3]) [0, j]"
      unfolding o by (auto simp: flat_sparse_engine_def example_engine_def)
    from dy(2)[rule_format, of 1 1 2] have "item dy [1, 1, 2] = 3" by (simp add: item_def)
    with dy(1) show ?thesis by blast
  qed
  have d: "assemble example_grad example_opts 3 tall_sparse_engine
      = Inl (ValueError ''operands could not be broadcast together with remapped shapes'')"
    using shape_mismatch[OF n3, where engine = tall_sparse_engine and opts = example_opts
        and training_gradients = example_grad and p = 5 and q = 3
        and d = "replicate 15 0", THEN conjunct2, THEN conjunct1]
    unfolding o by (simp add: tall_sparse_engine_def example_engine_def)
  have e: "\<exists>dy_ddata. assemble const_grad example_opts 3 example_engine = Inr dy_ddata
      \<and> item dy_ddata [1, 1, 2] = 3/2"
  proof -
    have q: "\<forall>k < 2. const_grad example_engine [[1/2, 3/2] ! k]
               = Inr (NDArray [(\<lambda>k. 1) k] ((\<lambda>k. [[1/2, 3/2] ! k]) k))"
      by (simp add: const_grad_def)
    from shape_mismatch[OF n3, where engine = example_engine and opts = example_opts
        and training_gradients = const_grad and g = "\<lambda>k. 1"
        and v = "\<lambda>k. [[1/2, 3/2] ! k]", THEN conjunct2, THEN conjunct2, THEN conjunct1]
    obtain dy where dy: "assemble const_grad example_opts 3 example_engine = Inr dy"
      "\<forall>b < 2. \<forall>k < 2. \<forall>j < 3.
          item dy [b, k, j] = item (NDArray [1] [[1/2, 3/2] ! k]) [0]"
      unfolding o using q by (auto simp: example_engine_def)
    from dy(2)[rule_format, of 1 1 2] have "item dy [1, 1, 2] = 3/2" by (simp add: item_def)
    with dy(1) show ?thesis by blast
  qed
  have f: "assemble short_grad example_opts 3 example_engine
      = Inl (ValueError ''could not broadcast input array'')"
  proof -
    have q: "\<forall>k < 2. short_grad example_engine [[1/2, 3/2] ! k]
               = Inr (NDArray [(\<lambda>k. 2) k] ((\<lambda>k. [[1/2, 3/2] ! k, 0]) k))"
      by (simp add: short_grad_def)
    from shape_mismatch[OF n3, where engine = example_engine and opts = example_opts
        and training_gradients = short_grad and g = "\<lambda>k. 2"
        and v = "\<lambda>k. [[1/2, 3/2] ! k, 0]", THEN conjunct2, THEN conjunct2, THEN conjunct1]
    show ?thesis
      unfolding o using q
      by (auto simp: example_engine_def split: if_splits dest: spec[of _ "0::nat"])
  qed
  have g: "\<exists>err. compute_partials example_grad example_opts misshaped_comp Map.empty = Inl err"
    using shape_mismatch[OF n3, where engine = misshaped_engine and opts = example_opts
        and training_gradients = example_grad and out_name = "''y''" and c = misshaped_comp
        and partials = Map.empty, THEN conjunct2, THEN conjunct2, THEN conjunct2] b
    by (simp add: misshaped_comp_def ready_comp_def init_def)
  from a b c d e f g show ?thesis by blast
qed

end
